theory Spec2Isabelle
  imports Complex_Main "HOL-Library.Char_ord" "HOL-Library.List_Lexorder"
begin

section \<open>RouteGlyph route engine: graph model, scoring, shortest path, coverage optimizer\<close>

text \<open>
  A shallow embedding of \<^verbatim>\<open>packages/route-engine/src\<close>
  (\<^verbatim>\<open>graph.ts\<close>, \<^verbatim>\<open>scoring.ts\<close>, \<^verbatim>\<open>shortest-path.ts\<close>,
  \<^verbatim>\<open>optimizers.ts\<close>).

  Conventions of the embedding.
  \<^item> A JavaScript \<^verbatim>\<open>number\<close> is a \<^typ>\<open>real\<close>: arithmetic is exact, there is
    no NaN, no infinity and no rounding. \<^verbatim>\<open>Math.round\<close> is \<^const>\<open>round\<close>
    (both round half up), \<^verbatim>\<open>Math.floor\<close> is \<^const>\<open>floor\<close>. The embedding
    therefore says nothing of a run whose outcome rests on the rounding of doubles. The one
    place where this matters is a search over a cycle of negative cost: the exact costs
    decrease for ever, while the doubles of the source stop decreasing once they are large
    in magnitude. All properties of the search below are stated for step costs that are not
    negative, as the data model has them.
  \<^item> An optional field or a value that may be \<^verbatim>\<open>undefined\<close> is an \<^typ>\<open>'a option\<close>.
  \<^item> A \<^verbatim>\<open>Map\<close> whose iteration order the code observes (\<^verbatim>\<open>graph.nodes\<close>,
    \<^verbatim>\<open>graph.traversableFrom\<close>) is an association list in insertion order: \<^verbatim>\<open>get\<close>
    is \<^const>\<open>map_of\<close>, \<^verbatim>\<open>set\<close> overwrites in place or appends. A \<^verbatim>\<open>Map\<close>
    that is only read by key (\<^verbatim>\<open>bestCostByState\<close>, \<^verbatim>\<open>stateMap\<close>) is a HOL map.
  \<^item> A thrown \<^verbatim>\<open>Error\<close> is the \<open>Inl\<close> of a sum; a loop that may run forever
    returns an \<^typ>\<open>'a option\<close>, with \<open>None\<close> for not returning.
  \<^item> Record fields keep the source's names; where two types share a field name, or a
    name is taken by HOL, the field carries a short prefix.
\<close>

subsection \<open>Data model (\<^verbatim>\<open>graph.ts\<close>, \<^verbatim>\<open>domain\<close>)\<close>

record Coordinate =
  lat :: real
  lon :: real

record RoadNode =
  node_id :: string
  coordinate :: Coordinate
  elevationMeters :: "real option"

record RoadEdge =
  edge_id :: string
  edge_fromNodeId :: string
  edge_toNodeId :: string
  edge_streetName :: string
  edge_lengthMeters :: real
  bidirectional :: bool
  edge_hasSidewalk :: bool
  edge_litAtNight :: bool
  edge_trafficStress :: nat
  edge_elevationGainMeters :: real

record TraversableEdge =
  edgeId :: string
  fromNodeId :: string
  toNodeId :: string
  lengthMeters :: real
  streetName :: string
  hasSidewalk :: bool
  litAtNight :: bool
  trafficStress :: nat
  elevationGainMeters :: real
  fromCoordinate :: "Coordinate option"
  toCoordinate :: "Coordinate option"

record RoadGraph =
  nodes :: "(string \<times> RoadNode) list"
  edges :: "(string \<times> RoadEdge) list"
  traversableFrom :: "(string \<times> TraversableEdge list) list"

record StreetCandidate =
  street_id :: string
  street_name :: string
  street_coordinate :: Coordinate

datatype error =
  NoPathFound string string
  | GraphHasNoNodes

text \<open>\<^verbatim>\<open>Map.prototype.set\<close>: an existing key keeps its position, a new key goes last.\<close>

fun Map_set :: "('k \<times> 'v) list \<Rightarrow> 'k \<Rightarrow> 'v \<Rightarrow> ('k \<times> 'v) list" where
  "Map_set [] k v = [(k, v)]"
| "Map_set ((k', v') # m) k v = (if k' = k then (k, v) # m else (k', v') # Map_set m k v)"

text \<open>\<^verbatim>\<open>new Map(entries)\<close>: the entries are set one after the other.\<close>

definition Map_new :: "('k \<times> 'v) list \<Rightarrow> ('k \<times> 'v) list" where
  "Map_new entries = foldl (\<lambda>m (k, v). Map_set m k v) [] entries"

definition Map_values :: "('k \<times> 'v) list \<Rightarrow> 'v list" where
  "Map_values m = map snd m"

text \<open>\<^verbatim>\<open>m.get(k) ?? []\<close>\<close>

definition getOrEmpty :: "('k \<times> 'v list) list \<Rightarrow> 'k \<Rightarrow> 'v list" where
  "getOrEmpty m k = (case map_of m k of None \<Rightarrow> [] | Some vs \<Rightarrow> vs)"

text \<open>Truthiness of a \<^verbatim>\<open>string | undefined\<close>: the empty string is falsy.\<close>

fun truthy :: "string option \<Rightarrow> bool" where
  "truthy None = False"
| "truthy (Some s) = (s \<noteq> [])"

subsection \<open>Scoring (\<^verbatim>\<open>scoring.ts\<close>)\<close>

record RouteObjectiveWeights =
  distance :: real
  elevation :: real
  turns :: real
  safety :: real
  uTurn :: real

definition DEFAULT_ROUTE_OBJECTIVE_WEIGHTS :: RouteObjectiveWeights where
  "DEFAULT_ROUTE_OBJECTIVE_WEIGHTS =
     \<lparr>distance = 1, elevation = 25 / 100, turns = 4 / 10, safety = 9 / 10, uTurn = 12 / 10\<rparr>"

definition scoreEdgeTraversal :: "TraversableEdge \<Rightarrow> RouteObjectiveWeights \<Rightarrow> real" where
  "scoreEdgeTraversal edge weights =
     (let safetyPenalty =
            (real (trafficStress edge) - 1) * (35 / 100)
            + (if hasSidewalk edge then 0 else 7 / 10)
            + (if litAtNight edge then 0 else 2 / 10);
          uphillMeters = max 0 (elevationGainMeters edge)
      in lengthMeters edge * distance weights
         + uphillMeters * elevation weights
         + safetyPenalty * 100 * safety weights)"

definition angleBetweenDegrees :: "Coordinate \<Rightarrow> Coordinate \<Rightarrow> Coordinate \<Rightarrow> real" where
  "angleBetweenDegrees a b c =
     (let v1x = lon a - lon b;
          v1y = lat a - lat b;
          v2x = lon c - lon b;
          v2y = lat c - lat b;
          dot = v1x * v2x + v1y * v2y;
          mag1 = sqrt (v1x * v1x + v1y * v1y);
          mag2 = sqrt (v2x * v2x + v2y * v2y)
      in if mag1 = 0 \<or> mag2 = 0 then 0
         else (let cosine = max (- 1) (min 1 (dot / (mag1 * mag2)))
               in (arccos cosine * 180) / pi))"

definition scoreTurn ::
  "Coordinate \<Rightarrow> Coordinate \<Rightarrow> Coordinate \<Rightarrow> RouteObjectiveWeights \<Rightarrow> real" where
  "scoreTurn previousCoordinate currentCoordinate nextCoordinate weights =
     (let angle = angleBetweenDegrees previousCoordinate currentCoordinate nextCoordinate;
          bendPenalty = (angle / 180) * 100 * turns weights;
          isUTurn = (angle > 165)
      in bendPenalty + (if isUTurn then 100 * uTurn weights else 0))"

subsection \<open>Shortest path (\<^verbatim>\<open>shortest-path.ts\<close>)\<close>

record PathResult =
  nodeIds :: "string list"
  traversedEdges :: "TraversableEdge list"
  totalDistanceMeters :: real
  totalCost :: real

record FindPathRequest =
  graph :: RoadGraph
  startNodeId :: string
  endNodeId :: string
  weights :: "RouteObjectiveWeights option"

record PathState =
  key :: string
  nodeId :: string
  previousNodeId :: "string option"
  cost :: real
  state_distanceMeters :: real
  parentKey :: "string option"
  viaEdge :: "TraversableEdge option"

definition createKey :: "string \<Rightarrow> string option \<Rightarrow> string" where
  "createKey nid previous =
     nid @ ''|'' @ (case previous of None \<Rightarrow> ''start'' | Some p \<Rightarrow> p)"

text \<open>
  The \<^verbatim>\<open>while (currentKey)\<close> loop of \<^verbatim>\<open>reconstructPath\<close>: it follows
  \<^verbatim>\<open>parentKey\<close> until the key is absent, empty or unknown to the state map. Nothing in
  the loop bounds the walk, so it is a partial function.
\<close>

partial_function (option) walkBack ::
  "(string \<rightharpoonup> PathState) \<Rightarrow> string option \<Rightarrow> PathState list \<Rightarrow> PathState list option" where
  "walkBack sm currentKey reversed =
     (if \<not> truthy currentKey then Some reversed
      else (case sm (the currentKey) of
              None \<Rightarrow> Some reversed
            | Some state \<Rightarrow> walkBack sm (parentKey state) (reversed @ [state])))"

definition pathOfStates :: "PathState list \<Rightarrow> PathResult" where
  "pathOfStates states =
     \<lparr>nodeIds = map nodeId states,
      traversedEdges = List.map_filter viaEdge states,
      totalDistanceMeters = (if states = [] then 0 else state_distanceMeters (last states)),
      totalCost = (if states = [] then 0 else cost (last states))\<rparr>"

definition reconstructPath :: "(string \<rightharpoonup> PathState) \<Rightarrow> string \<Rightarrow> PathResult option" where
  "reconstructPath sm finalKey =
     map_option (\<lambda>reversed. pathOfStates (rev reversed)) (walkBack sm (Some finalKey) [])"

record SearchState =
  open_list :: "PathState list"
  bestCostByState :: "string \<rightharpoonup> real"
  stateMap :: "string \<rightharpoonup> PathState"

text \<open>The cost added by the turn at \<open>current\<close> towards \<open>nextNodeId\<close> (lines 99 to 106).\<close>

definition turnCost ::
  "RoadGraph \<Rightarrow> RouteObjectiveWeights \<Rightarrow> string option \<Rightarrow> string \<Rightarrow> string \<Rightarrow> real" where
  "turnCost g w previous at_id nextNodeId =
     (if truthy previous then
        (case (map_of (nodes g) (the previous), map_of (nodes g) at_id,
               map_of (nodes g) nextNodeId) of
           (Some p, Some a, Some n) \<Rightarrow> scoreTurn (coordinate p) (coordinate a) (coordinate n) w
         | _ \<Rightarrow> 0)
      else 0)"

text \<open>One pass of the body of \<^verbatim>\<open>for (const edge of outgoing)\<close>.\<close>

definition relaxEdge ::
  "RoadGraph \<Rightarrow> RouteObjectiveWeights \<Rightarrow> PathState \<Rightarrow> SearchState \<Rightarrow> TraversableEdge
     \<Rightarrow> SearchState" where
  "relaxEdge g w current st edge =
     (let nextNodeId = toNodeId edge;
          nextKey = createKey nextNodeId (Some (nodeId current));
          nextCost = cost current + scoreEdgeTraversal edge w
                     + turnCost g w (previousNodeId current) (nodeId current) nextNodeId;
          knownBest = bestCostByState st nextKey
      in if knownBest \<noteq> None \<and> the knownBest \<le> nextCost then st
         else (let nextState =
                     \<lparr>key = nextKey, nodeId = nextNodeId,
                      previousNodeId = Some (nodeId current), cost = nextCost,
                      state_distanceMeters = state_distanceMeters current + lengthMeters edge,
                      parentKey = Some (key current), viaEdge = Some edge\<rparr>
               in \<lparr>open_list = open_list st @ [nextState],
                   bestCostByState = (bestCostByState st)(nextKey \<mapsto> nextCost),
                   stateMap = (stateMap st)(nextKey \<mapsto> nextState)\<rparr>))"

definition outgoing :: "RoadGraph \<Rightarrow> string \<Rightarrow> TraversableEdge list" where
  "outgoing g nid = getOrEmpty (traversableFrom g) nid"

text \<open>
  The \<^verbatim>\<open>while (open.length > 0)\<close> loop of \<^verbatim>\<open>findPath\<close>. The frontier is sorted by
  ascending cost (a stable sort, as \<^verbatim>\<open>Array.prototype.sort\<close> is), its head is taken,
  and either the goal is reached or the head's outgoing edges are relaxed. The \<^verbatim>\<open>throw\<close>
  after the loop is the \<open>Inl\<close> result.
\<close>

partial_function (option) searchLoop ::
  "RoadGraph \<Rightarrow> RouteObjectiveWeights \<Rightarrow> string \<Rightarrow> string \<Rightarrow> SearchState
     \<Rightarrow> (error + PathResult) option" where
  "searchLoop g w startId endId st =
     (case sort_key cost (open_list st) of
        [] \<Rightarrow> Some (Inl (NoPathFound startId endId))
      | current # rest \<Rightarrow>
          if nodeId current = endId
          then map_option Inr (reconstructPath (stateMap st) (key current))
          else searchLoop g w startId endId
                 (foldl (relaxEdge g w current) (st\<lparr>open_list := rest\<rparr>)
                    (outgoing g (nodeId current))))"

definition initialState :: "string \<Rightarrow> PathState" where
  "initialState s =
     \<lparr>key = createKey s None, nodeId = s, previousNodeId = None, cost = 0,
      state_distanceMeters = 0, parentKey = None, viaEdge = None\<rparr>"

definition findPath :: "FindPathRequest \<Rightarrow> (error + PathResult) option" where
  "findPath request =
     (let w = (case weights request of None \<Rightarrow> DEFAULT_ROUTE_OBJECTIVE_WEIGHTS | Some w' \<Rightarrow> w');
          s = startNodeId request
      in searchLoop (graph request) w s (endNodeId request)
           \<lparr>open_list = [initialState s],
            bestCostByState = [key (initialState s) \<mapsto> 0],
            stateMap = [key (initialState s) \<mapsto> initialState s]\<rparr>)"

subsection \<open>Graph construction and nearest node (\<^verbatim>\<open>graph.ts\<close>)\<close>

definition distanceMeters :: "Coordinate \<Rightarrow> Coordinate \<Rightarrow> real" where
  "distanceMeters a b =
     (let dx = (lat a - lat b) * 111000;
          dy = (lon a - lon b) * 85000
      in real_of_int (round (sqrt (dx * dx + dy * dy))))"

definition forwardEdge :: "RoadEdge \<Rightarrow> TraversableEdge" where
  "forwardEdge edge =
     \<lparr>edgeId = edge_id edge,
      fromNodeId = edge_fromNodeId edge,
      toNodeId = edge_toNodeId edge,
      lengthMeters = edge_lengthMeters edge,
      streetName = edge_streetName edge,
      hasSidewalk = edge_hasSidewalk edge,
      litAtNight = edge_litAtNight edge,
      trafficStress = edge_trafficStress edge,
      elevationGainMeters = edge_elevationGainMeters edge,
      fromCoordinate = None,
      toCoordinate = None\<rparr>"

definition reverseEdge :: "RoadEdge \<Rightarrow> TraversableEdge" where
  "reverseEdge edge =
     (forwardEdge edge)
       \<lparr>fromNodeId := edge_toNodeId edge,
        toNodeId := edge_fromNodeId edge,
        elevationGainMeters := - edge_elevationGainMeters edge\<rparr>"

text \<open>
  \<^verbatim>\<open>existing = traversableFrom.get(k) ?? []; existing.push(t); traversableFrom.set(k, existing)\<close>
\<close>

definition pushTraversable ::
  "(string \<times> TraversableEdge list) list \<Rightarrow> TraversableEdge
     \<Rightarrow> (string \<times> TraversableEdge list) list" where
  "pushTraversable tf t =
     Map_set tf (fromNodeId t) (getOrEmpty tf (fromNodeId t) @ [t])"

definition addRoadEdge ::
  "(string \<times> TraversableEdge list) list \<Rightarrow> RoadEdge \<Rightarrow> (string \<times> TraversableEdge list) list" where
  "addRoadEdge tf edge =
     (let tf1 = pushTraversable tf (forwardEdge edge)
      in if bidirectional edge then pushTraversable tf1 (reverseEdge edge) else tf1)"

definition createRoadGraph :: "RoadNode list \<Rightarrow> RoadEdge list \<Rightarrow> RoadGraph" where
  "createRoadGraph ns es =
     \<lparr>nodes = Map_new (map (\<lambda>node. (node_id node, node)) ns),
      edges = Map_new (map (\<lambda>edge. (edge_id edge, edge)) es),
      traversableFrom = foldl addRoadEdge [] es\<rparr>"

text \<open>
  The scan of \<^verbatim>\<open>findNearestNodeId\<close>. \<^verbatim>\<open>bestDistance\<close> starts at positive infinity,
  which is \<open>None\<close> here: every distance is smaller.
\<close>

definition nearestStep ::
  "Coordinate \<Rightarrow> string \<times> real option \<Rightarrow> RoadNode \<Rightarrow> string \<times> real option" where
  "nearestStep c best node =
     (let d = distanceMeters (coordinate node) c
      in if (case snd best of None \<Rightarrow> True | Some bestDistance \<Rightarrow> d < bestDistance)
         then (node_id node, Some d) else best)"

definition findNearestNodeId :: "RoadGraph \<Rightarrow> Coordinate \<Rightarrow> error + string" where
  "findNearestNodeId g c =
     (let bestNodeId = fst (foldl (nearestStep c) ([], None) (Map_values (nodes g)))
      in if bestNodeId = [] then Inl GraphHasNoNodes else Inr bestNodeId)"

text \<open>
  The directed traversals the data model asks of one road edge, written from its words:
  one traversal in the edge's direction, and for a bidirectional edge a second one with the
  endpoints exchanged and the elevation gain negated, every other field the same.
\<close>

definition directedTraversals :: "RoadEdge \<Rightarrow> TraversableEdge list" where
  "directedTraversals e =
     (if bidirectional e
      then [\<lparr>edgeId = edge_id e, fromNodeId = edge_fromNodeId e, toNodeId = edge_toNodeId e,
             lengthMeters = edge_lengthMeters e, streetName = edge_streetName e,
             hasSidewalk = edge_hasSidewalk e, litAtNight = edge_litAtNight e,
             trafficStress = edge_trafficStress e,
             elevationGainMeters = edge_elevationGainMeters e,
             fromCoordinate = None, toCoordinate = None\<rparr>,
            \<lparr>edgeId = edge_id e, fromNodeId = edge_toNodeId e, toNodeId = edge_fromNodeId e,
             lengthMeters = edge_lengthMeters e, streetName = edge_streetName e,
             hasSidewalk = edge_hasSidewalk e, litAtNight = edge_litAtNight e,
             trafficStress = edge_trafficStress e,
             elevationGainMeters = - edge_elevationGainMeters e,
             fromCoordinate = None, toCoordinate = None\<rparr>]
      else [\<lparr>edgeId = edge_id e, fromNodeId = edge_fromNodeId e, toNodeId = edge_toNodeId e,
             lengthMeters = edge_lengthMeters e, streetName = edge_streetName e,
             hasSidewalk = edge_hasSidewalk e, litAtNight = edge_litAtNight e,
             trafficStress = edge_trafficStress e,
             elevationGainMeters = edge_elevationGainMeters e,
             fromCoordinate = None, toCoordinate = None\<rparr>])"

subsection \<open>Strings\<close>

text \<open>
  A string is a list of characters, and its characters are meant to be ASCII.
  \<^verbatim>\<open>toUpperCase\<close> and \<^verbatim>\<open>toLowerCase\<close> map the ASCII letters and leave any other
  character as it is, which is what the source does on an ASCII string. Outside ASCII the
  source does more (\<^verbatim>\<open>toUpperCase\<close> turns a sharp s into \<^verbatim>\<open>SS\<close>, a dotless i into
  \<^verbatim>\<open>I\<close>), so a property that rests on the letters read from a string is stated for
  ASCII strings.
\<close>

definition toUpperChar :: "char \<Rightarrow> char" where
  "toUpperChar c =
     (case map_of (zip ''abcdefghijklmnopqrstuvwxyz'' ''ABCDEFGHIJKLMNOPQRSTUVWXYZ'') c of
        None \<Rightarrow> c | Some u \<Rightarrow> u)"

definition toLowerChar :: "char \<Rightarrow> char" where
  "toLowerChar c =
     (case map_of (zip ''ABCDEFGHIJKLMNOPQRSTUVWXYZ'' ''abcdefghijklmnopqrstuvwxyz'') c of
        None \<Rightarrow> c | Some l \<Rightarrow> l)"

definition toUpperCase :: "string \<Rightarrow> string" where
  "toUpperCase s = map toUpperChar s"

definition toLowerCase :: "string \<Rightarrow> string" where
  "toLowerCase s = map toLowerChar s"

fun startsWith :: "string \<Rightarrow> string \<Rightarrow> bool" where
  "startsWith s [] = True"
| "startsWith [] (c # cs) = False"
| "startsWith (d # ds) (c # cs) = (d = c \<and> startsWith ds cs)"

text \<open>\<^verbatim>\<open>s.includes(t)\<close>\<close>

fun includes_str :: "string \<Rightarrow> string \<Rightarrow> bool" where
  "includes_str [] t = (t = [])"
| "includes_str (c # cs) t = (startsWith (c # cs) t \<or> includes_str cs t)"

text \<open>The decimal rendering of a non-negative integer in a template literal.\<close>

fun showNat :: "nat \<Rightarrow> string" where
  "showNat n =
     (if n < 10 then [''0123456789'' ! n]
      else showNat (n div 10) @ [''0123456789'' ! (n mod 10)])"

text \<open>\<^verbatim>\<open>[...new Set(xs)]\<close>: the first occurrence of every element, in order.\<close>

definition setOrder :: "'a list \<Rightarrow> 'a list" where
  "setOrder xs = foldl (\<lambda>acc x. if x \<in> set acc then acc else acc @ [x]) [] xs"

text \<open>Truthiness of a \<^verbatim>\<open>number | undefined\<close>: zero is falsy.\<close>

fun truthyNum :: "real option \<Rightarrow> bool" where
  "truthyNum None = False"
| "truthyNum (Some x) = (x \<noteq> 0)"

subsection \<open>Generated graphs (\<^verbatim>\<open>graph.ts\<close>)\<close>

definition seedName :: "nat \<Rightarrow> string \<Rightarrow> string" where
  "seedName i suffix =
     (let letter = ''ABCDEFGHIJKLMNOPQRSTUVWXYZ'' ! (i mod 26);
          cycle = i div 26
      in [letter] @ (if cycle > 0 then showNat (cycle + 1) else []) @ '' '' @ suffix)"

definition seedSize :: "real option \<Rightarrow> nat" where
  "seedSize radius =
     (let minimumSize = 7;
          requestedSize = (if truthyNum radius then \<lceil>the radius / 175\<rceil> * 2 + 1 else minimumSize)
      in nat (min 27 (max minimumSize requestedSize)))"

definition seedNode :: "Coordinate \<Rightarrow> nat \<Rightarrow> nat \<Rightarrow> nat \<Rightarrow> RoadNode" where
  "seedNode c half y x =
     \<lparr>node_id = ''n-'' @ showNat y @ ''-'' @ showNat x,
      coordinate = \<lparr>lat = lat c + (real y - real half) * (135 / 100000),
                    lon = lon c + (real x - real half) * (175 / 100000)\<rparr>,
      elevationMeters = Some (10 + real y * 3 + real x)\<rparr>"

definition elevationOrZero :: "RoadNode \<Rightarrow> real" where
  "elevationOrZero n = (case elevationMeters n of None \<Rightarrow> 0 | Some e \<Rightarrow> e)"

definition seedRowEdge :: "Coordinate \<Rightarrow> nat \<Rightarrow> nat \<Rightarrow> nat \<Rightarrow> string \<Rightarrow> RoadEdge" where
  "seedRowEdge c half y x eid =
     (let a = seedNode c half y x; b = seedNode c half y (x + 1)
      in \<lparr>edge_id = eid, edge_fromNodeId = node_id a, edge_toNodeId = node_id b,
          edge_streetName = seedName y ''Ave'',
          edge_lengthMeters = distanceMeters (coordinate a) (coordinate b),
          bidirectional = True, edge_hasSidewalk = True,
          edge_litAtNight = (y mod 4 \<noteq> 0),
          edge_trafficStress = y mod 5 + 1,
          edge_elevationGainMeters = elevationOrZero b - elevationOrZero a\<rparr>)"

definition seedColEdge :: "Coordinate \<Rightarrow> nat \<Rightarrow> nat \<Rightarrow> nat \<Rightarrow> string \<Rightarrow> RoadEdge" where
  "seedColEdge c half y x eid =
     (let a = seedNode c half y x; b = seedNode c half (y + 1) x
      in \<lparr>edge_id = eid, edge_fromNodeId = node_id a, edge_toNodeId = node_id b,
          edge_streetName = seedName x ''St'',
          edge_lengthMeters = distanceMeters (coordinate a) (coordinate b),
          bidirectional = True, edge_hasSidewalk = (x mod 6 \<noteq> 0),
          edge_litAtNight = (y mod 3 \<noteq> 0),
          edge_trafficStress = x mod 5 + 1,
          edge_elevationGainMeters = elevationOrZero b - elevationOrZero a\<rparr>)"

text \<open>
  \<^verbatim>\<open>createSeedRoadGraph\<close>: the nodes row by row, then the row edges, then the column
  edges; \<^verbatim>\<open>edgeCount++\<close> numbers the edges in the order they are pushed.
\<close>

definition createSeedRoadGraph :: "Coordinate \<Rightarrow> real option \<Rightarrow> RoadGraph" where
  "createSeedRoadGraph c radius =
     (let size = seedSize radius;
          half = size div 2;
          ns = concat (map (\<lambda>y. map (\<lambda>x. seedNode c half y x) [0..<size]) [0..<size]);
          rowEdges = concat (map (\<lambda>y. map (\<lambda>x. seedRowEdge c half y x) [0..<size - 1]) [0..<size]);
          colEdges = concat (map (\<lambda>x. map (\<lambda>y. seedColEdge c half y x) [0..<size - 1]) [0..<size]);
          pending = rowEdges @ colEdges;
          es = map (\<lambda>(mk, i). mk (''e-'' @ showNat i)) (zip pending [0..<length pending])
      in createRoadGraph ns es)"

definition findStreet :: "StreetCandidate list \<Rightarrow> string \<Rightarrow> StreetCandidate option" where
  "findStreet streets sid = find (\<lambda>street. street_id street = sid) streets"

definition nearestNeighbors :: "RoadNode list \<Rightarrow> RoadNode \<Rightarrow> (RoadNode \<times> real) list" where
  "nearestNeighbors ns fromNode =
     take 5 (sort_key snd
       (map (\<lambda>node. (node, distanceMeters (coordinate fromNode) (coordinate node)))
          (filter (\<lambda>node. node_id node \<noteq> node_id fromNode) ns)))"

definition streetAreaEdge ::
  "StreetCandidate list \<Rightarrow> (string \<times> RoadNode) list \<Rightarrow> RoadNode \<Rightarrow> RoadNode \<times> real
     \<Rightarrow> string \<Rightarrow> RoadEdge" where
  "streetAreaEdge streets nodeById fromNode nd eid =
     (let toNode = fst nd; d = snd nd;
          toStreet = findStreet streets (node_id toNode);
          fromStreet = findStreet streets (node_id fromNode)
      in \<lparr>edge_id = eid, edge_fromNodeId = node_id fromNode, edge_toNodeId = node_id toNode,
          edge_streetName =
            (case toStreet of Some s \<Rightarrow> street_name s
             | None \<Rightarrow> (case fromStreet of Some s \<Rightarrow> street_name s | None \<Rightarrow> ''Connector'')),
          edge_lengthMeters = d,
          bidirectional = True, edge_hasSidewalk = True, edge_litAtNight = True,
          edge_trafficStress = 2,
          edge_elevationGainMeters =
            (case map_of nodeById (node_id toNode) of None \<Rightarrow> 0 | Some n \<Rightarrow> elevationOrZero n)
            - (case map_of nodeById (node_id fromNode) of None \<Rightarrow> 0 | Some n \<Rightarrow> elevationOrZero n)\<rparr>)"

definition createStreetAreaGraph :: "Coordinate \<Rightarrow> StreetCandidate list \<Rightarrow> RoadGraph" where
  "createStreetAreaGraph st streets =
     (let ns = \<lparr>node_id = ''start'', coordinate = st, elevationMeters = None\<rparr>
               # map (\<lambda>street. \<lparr>node_id = street_id street,
                                   coordinate = street_coordinate street,
                                   elevationMeters = None\<rparr>) streets;
          nodeById = Map_new (map (\<lambda>node. (node_id node, node)) ns);
          pending = concat (map (\<lambda>fromNode.
                      map (streetAreaEdge streets nodeById fromNode) (nearestNeighbors ns fromNode)) ns);
          es = map (\<lambda>(mk, i). mk (''s-'' @ showNat i)) (zip pending [0..<length pending])
      in createRoadGraph ns es)"

subsection \<open>Route requests and routes (\<^verbatim>\<open>domain\<close>)\<close>

datatype CoverageStrategy = target_streets | alphabet

datatype RouteMode = coverage | shape

record Area =
  center :: Coordinate
  radiusMeters :: real

record CoverageRouteRequest =
  req_name :: string
  targetStreets :: "string list"
  start :: Coordinate
  strategy :: "CoverageStrategy option"
  maxDistanceMeters :: "real option"
  req_alphabet :: "string list option"
  area :: "Area option"

record RouteSegment =
  seg_from :: Coordinate
  seg_to :: Coordinate
  seg_streetName :: "string option"

record CoverageMeta =
  cov_strategy :: CoverageStrategy
  lettersCovered :: "string list"
  plannedLettersCovered :: "string list option"
  lettersRequested :: "string list"
  matchedStreetCount :: nat
  cov_maxDistanceMeters :: "real option"
  estimatedElevationGainMeters :: real
  duplicateStreetPenalty :: nat
  uniqueStreetCount :: nat
  snappedToRoads :: "bool option"
  snapReason :: "string option"

record GeneratedRoute =
  route_id :: string
  mode :: RouteMode
  route_name :: string
  route_distanceMeters :: real
  createdAtIso :: string
  segments :: "RouteSegment list"
  route_coverage :: "CoverageMeta option"

text \<open>
  The collaborators of the optimizer. A search adapter may fail or never answer; a street
  catalog may fail or never answer. \<open>CollaboratorError\<close> is any error they throw.
\<close>

datatype failure = EngineError error | CollaboratorError string

record Dependencies =
  dep_graph :: "RoadGraph option"
  dep_shortestPath :: "(FindPathRequest \<Rightarrow> (failure + PathResult) option) option"
  dep_streetCatalog :: "(CoverageRouteRequest \<Rightarrow> (failure + StreetCandidate list) option) option"

text \<open>\<^verbatim>\<open>new InMemoryShortestPathAdapter()\<close> as an adapter.\<close>

definition InMemoryShortestPathAdapter :: "FindPathRequest \<Rightarrow> (failure + PathResult) option" where
  "InMemoryShortestPathAdapter request = map_option (map_sum EngineError id) (findPath request)"

subsection \<open>Coverage optimizer (\<^verbatim>\<open>optimizers.ts\<close>)\<close>

definition ALPHABET :: "string list" where
  "ALPHABET = map (\<lambda>c. [c]) ''ABCDEFGHIJKLMNOPQRSTUVWXYZ''"

definition resolveCoordinate :: "RoadGraph \<Rightarrow> string \<Rightarrow> Coordinate option \<Rightarrow> Coordinate option" where
  "resolveCoordinate g nid fallback =
     (case map_of (nodes g) nid of Some n \<Rightarrow> Some (coordinate n) | None \<Rightarrow> fallback)"

definition traversalsToSegments :: "RoadGraph \<Rightarrow> TraversableEdge list \<Rightarrow> RouteSegment list" where
  "traversalsToSegments g traversals =
     List.map_filter
       (\<lambda>edge. case (resolveCoordinate g (fromNodeId edge) (fromCoordinate edge),
                      resolveCoordinate g (toNodeId edge) (toCoordinate edge)) of
                  (Some f, Some t) \<Rightarrow>
                     Some \<lparr>seg_from = f, seg_to = t, seg_streetName = Some (streetName edge)\<rparr>
                | _ \<Rightarrow> None)
       traversals"

definition appendPath :: "TraversableEdge list \<Rightarrow> TraversableEdge list \<Rightarrow> TraversableEdge list" where
  "appendPath target incoming = target @ incoming"

definition distanceOf :: "TraversableEdge list \<Rightarrow> real" where
  "distanceOf es = foldl (\<lambda>sum edge. sum + lengthMeters edge) 0 es"

definition approximateDistanceMeters :: "Coordinate \<Rightarrow> Coordinate \<Rightarrow> real" where
  "approximateDistanceMeters a b =
     (let dx = (lat a - lat b) * 111000;
          dy = (lon a - lon b) * 85000
      in real_of_int (round (sqrt (dx * dx + dy * dy))))"

definition approximateNodeDistanceMeters :: "RoadGraph \<Rightarrow> string \<Rightarrow> string \<Rightarrow> real" where
  "approximateNodeDistanceMeters g fromId toId =
     (case (map_of (nodes g) fromId, map_of (nodes g) toId) of
        (Some f, Some t) \<Rightarrow> approximateDistanceMeters (coordinate f) (coordinate t)
      | _ \<Rightarrow> 0)"

text \<open>\<^verbatim>\<open>name.toUpperCase().match(/[A-Z]/)?.[0]\<close>\<close>

definition firstLetter :: "string \<Rightarrow> string option" where
  "firstLetter nm =
     (case filter (\<lambda>c. c \<in> set ''ABCDEFGHIJKLMNOPQRSTUVWXYZ'') (toUpperCase nm) of
        [] \<Rightarrow> None | c # _ \<Rightarrow> Some [c])"

definition normalizeAlphabet :: "string list option \<Rightarrow> string list" where
  "normalizeAlphabet input =
     (let requested = (case input of None \<Rightarrow> ALPHABET
                       | Some xs \<Rightarrow> if length xs \<noteq> 0 then xs else ALPHABET)
      in setOrder (List.map_filter firstLetter requested))"

definition chooseCoverageStrategy :: "CoverageRouteRequest \<Rightarrow> CoverageStrategy" where
  "chooseCoverageStrategy request =
     (case strategy request of
        Some s \<Rightarrow> s
      | None \<Rightarrow> if length (targetStreets request) > 0 then target_streets else alphabet)"

definition matchesTargetStreet :: "TraversableEdge \<Rightarrow> string list \<Rightarrow> bool" where
  "matchesTargetStreet edge targets =
     (if length targets = 0 then True
      else (let edgeName = toLowerCase (streetName edge)
            in list_ex (\<lambda>target. includes_str edgeName (toLowerCase target)) targets))"

definition uniqueEdgeKey :: "TraversableEdge \<Rightarrow> string" where
  "uniqueEdgeKey edge = fromNodeId edge @ ''->'' @ toNodeId edge @ ''->'' @ edgeId edge"

text \<open>One pass of the inner loop of \<^verbatim>\<open>uniqueEdges\<close>, on the pair of \<^verbatim>\<open>seen\<close> and \<^verbatim>\<open>edges\<close>.\<close>

definition uniqueStep ::
  "string list \<times> TraversableEdge list \<Rightarrow> TraversableEdge \<Rightarrow> string list \<times> TraversableEdge list" where
  "uniqueStep = (\<lambda>(seen, es) edge.
                   if uniqueEdgeKey edge \<in> set seen then (seen, es)
                   else (seen @ [uniqueEdgeKey edge], es @ [edge]))"

definition uniqueEdges :: "RoadGraph \<Rightarrow> TraversableEdge list" where
  "uniqueEdges g = snd (foldl uniqueStep ([], []) (concat (Map_values (traversableFrom g))))"

definition candidateScore ::
  "RoadGraph \<Rightarrow> string \<Rightarrow> string \<Rightarrow> CoverageStrategy \<Rightarrow> (string \<rightharpoonup> nat) \<Rightarrow> (string \<rightharpoonup> nat)
     \<Rightarrow> TraversableEdge \<Rightarrow> real" where
  "candidateScore g currentNodeId startId strat letterFrequency usedStreetNames edge =
     approximateNodeDistanceMeters g currentNodeId (fromNodeId edge)
     + lengthMeters edge
     + approximateNodeDistanceMeters g (toNodeId edge) startId
     - (if strat = alphabet
        then 400 / max 1 (real (case letterFrequency
                                       (case firstLetter (streetName edge) of
                                          None \<Rightarrow> [] | Some l \<Rightarrow> l) of
                                  None \<Rightarrow> 1 | Some n \<Rightarrow> n))
        else 0)
     + real (case usedStreetNames (toLowerCase (streetName edge)) of None \<Rightarrow> 0 | Some n \<Rightarrow> n)
       * 120"

definition shortlistCandidates ::
  "RoadGraph \<Rightarrow> string \<Rightarrow> string \<Rightarrow> CoverageStrategy \<Rightarrow> (string \<rightharpoonup> nat) \<Rightarrow> (string \<rightharpoonup> nat)
     \<Rightarrow> TraversableEdge list \<Rightarrow> TraversableEdge list" where
  "shortlistCandidates g currentNodeId startId strat letterFrequency usedStreetNames candidates =
     map fst
       (take 20
          (sort_key snd
             (map (\<lambda>edge. (edge, candidateScore g currentNodeId startId strat letterFrequency
                                    usedStreetNames edge))
                candidates)))"

definition withinDistanceBudget ::
  "RoadGraph \<Rightarrow> real \<Rightarrow> TraversableEdge \<Rightarrow> string \<Rightarrow> string \<Rightarrow> real option \<Rightarrow> bool" where
  "withinDistanceBudget g currentDistanceMeters edge currentNodeId startId maxDist =
     (if \<not> truthyNum maxDist then True
      else (let projected =
                  currentDistanceMeters
                  + approximateNodeDistanceMeters g currentNodeId (fromNodeId edge)
                  + lengthMeters edge
                  + approximateNodeDistanceMeters g (toNodeId edge) startId
            in projected \<le> the maxDist))"

record QualityMetrics =
  q_estimatedElevationGainMeters :: real
  q_duplicateStreetPenalty :: nat
  q_uniqueStreetCount :: nat

definition calculateCoverageQualityMetrics :: "TraversableEdge list \<Rightarrow> QualityMetrics" where
  "calculateCoverageQualityMetrics es =
     (let gain = foldl (\<lambda>acc edge. acc + max 0 (elevationGainMeters edge)) 0 es;
          streetCounts =
            foldl (\<lambda>m edge. Map_set m (toLowerCase (streetName edge))
                               ((case map_of m (toLowerCase (streetName edge)) of
                                   None \<Rightarrow> 0 | Some n \<Rightarrow> n) + (1::nat)))
              [] es;
          duplicateTraversals = foldl (\<lambda>sum n. sum + (n - 1)) 0 (Map_values streetCounts)
      in \<lparr>q_estimatedElevationGainMeters = real_of_int (round gain),
          q_duplicateStreetPenalty = duplicateTraversals,
          q_uniqueStreetCount = length streetCounts\<rparr>)"

text \<open>The selection budget computed at lines 241 to 248 of \<^verbatim>\<open>optimizeCoverageRoute\<close>.\<close>

definition alphabetSelectionCap :: "real option \<Rightarrow> int" where
  "alphabetSelectionCap maxDist =
     max 6 (min 14 \<lfloor>(case maxDist of None \<Rightarrow> 8000 | Some m \<Rightarrow> m) / 800\<rfloor>)"

definition maxSelections ::
  "CoverageStrategy \<Rightarrow> string list \<Rightarrow> string list \<Rightarrow> real option \<Rightarrow> int" where
  "maxSelections strat targetLetters targetStreetNames maxDist =
     (if strat = alphabet
      then max 1 (min (int (length targetLetters)) (alphabetSelectionCap maxDist))
      else max 3 (if length targetStreetNames \<noteq> 0 then int (length targetStreetNames) else 3))"

text \<open>
  The selection budget as a function of the request: the value of \<^verbatim>\<open>maxSelections\<close>
  (line 245), from the strategy (line 201), the requested letters (line 221), the target
  street names (line 222) and the distance cap (line 223).
\<close>

definition selectionBudget :: "CoverageRouteRequest \<Rightarrow> int" where
  "selectionBudget request =
     (let strat = chooseCoverageStrategy request;
          targetLetters = normalizeAlphabet (req_alphabet request);
          targetStreetNames = targetStreets request;
          maxDist = maxDistanceMeters request
      in maxSelections strat targetLetters targetStreetNames maxDist)"

text \<open>
  The letters a request asks for, in the words of the specification: every entry of the
  alphabet stands for its first letter, whatever its case, and an alphabet that is absent
  or empty stands for all 26 letters. The count of requested letters is the number of
  distinct letters among them. \<open>clamp\<close> is the usual clamping of a value to a range.
\<close>

definition isLetter :: "char \<Rightarrow> bool" where
  "isLetter c = (c \<in> set ''abcdefghijklmnopqrstuvwxyz'' \<or> c \<in> set ''ABCDEFGHIJKLMNOPQRSTUVWXYZ'')"

definition requestedLetters :: "string list option \<Rightarrow> string list" where
  "requestedLetters input =
     (case input of
        None \<Rightarrow> ALPHABET
      | Some xs \<Rightarrow>
          if xs = [] then ALPHABET
          else List.map_filter
                 (\<lambda>item. map_option (\<lambda>c. [toUpperChar c]) (find isLetter item)) xs)"

definition requestedLetterCount :: "string list option \<Rightarrow> nat" where
  "requestedLetterCount input = card (set (requestedLetters input))"

definition clamp :: "int \<Rightarrow> int \<Rightarrow> int \<Rightarrow> int" where
  "clamp x lo hi = max lo (min hi x)"

text \<open>The strings of an alphabet that hold ASCII characters only.\<close>

definition asciiAlphabet :: "string list option \<Rightarrow> bool" where
  "asciiAlphabet input =
     (case input of None \<Rightarrow> True
      | Some xs \<Rightarrow> \<forall>item \<in> set xs. \<forall>c \<in> set item. (of_char c :: nat) < 128)"

definition letterRequest :: CoverageRouteRequest where
  "letterRequest = \<lparr>req_name = ''letters'', targetStreets = [], start = \<lparr>lat = 0, lon = 0\<rparr>,
      strategy = None, maxDistanceMeters = Some 4000,
      req_alphabet = Some [''abbey Rd'', ''12 Acre Ln'', ''b''], area = None\<rparr>"

record SelectionState =
  currentNodeId :: string
  currentDistanceMeters :: real
  traversed :: "TraversableEdge list"
  coveredLetters :: "string list"
  matchedCount :: nat
  usedStreetNames :: "string \<rightharpoonup> nat"
  remaining :: "string list"

definition isCandidate :: "CoverageStrategy \<Rightarrow> string list \<Rightarrow> string list \<Rightarrow> TraversableEdge \<Rightarrow> bool" where
  "isCandidate strat targets remainingLetters edge =
     (if strat = alphabet
      then (case firstLetter (streetName edge) of
              None \<Rightarrow> False | Some letter \<Rightarrow> letter \<in> set remainingLetters)
      else matchesTargetStreet edge targets)"

text \<open>The bookkeeping after a selection (lines 297 to 311).\<close>

definition recordSelection ::
  "string list \<Rightarrow> SelectionState \<Rightarrow> TraversableEdge \<Rightarrow> PathResult \<Rightarrow> SelectionState" where
  "recordSelection targets st selectedEdge toStart =
     (let traversed' = appendPath (traversed st) (traversedEdges toStart);
          streetKey = toLowerCase (streetName selectedEdge);
          letter = firstLetter (streetName selectedEdge)
      in \<lparr>currentNodeId = fromNodeId selectedEdge,
          currentDistanceMeters = distanceOf traversed',
          traversed = traversed',
          coveredLetters =
            (case letter of None \<Rightarrow> coveredLetters st
             | Some l \<Rightarrow> if l \<in> set (coveredLetters st) then coveredLetters st
                         else coveredLetters st @ [l]),
          matchedCount =
            (if matchesTargetStreet selectedEdge targets then matchedCount st + 1
             else matchedCount st),
          usedStreetNames =
            (usedStreetNames st)(streetKey \<mapsto>
               (case usedStreetNames st streetKey of None \<Rightarrow> 0 | Some n \<Rightarrow> n) + 1),
          remaining =
            (case letter of None \<Rightarrow> remaining st | Some l \<Rightarrow> removeAll l (remaining st))\<rparr>)"

text \<open>
  The loop \<^verbatim>\<open>for (let i = 0; i < maxSelections; i += 1)\<close>; the counter is the number of
  passes left. A \<^verbatim>\<open>break\<close> returns the state as it is; an error of the adapter is
  not caught and ends the optimizer.
\<close>

fun selectionLoop ::
  "(FindPathRequest \<Rightarrow> (failure + PathResult) option) \<Rightarrow> RoadGraph \<Rightarrow> string \<Rightarrow> CoverageStrategy
     \<Rightarrow> string list \<Rightarrow> real option \<Rightarrow> (string \<rightharpoonup> nat) \<Rightarrow> TraversableEdge list
     \<Rightarrow> nat \<Rightarrow> SelectionState \<Rightarrow> (failure + SelectionState) option" where
  "selectionLoop sp g startId strat targets maxDist lf allEdges 0 st = Some (Inr st)"
| "selectionLoop sp g startId strat targets maxDist lf allEdges (Suc n) st =
     (let candidates = filter (isCandidate strat targets (remaining st)) allEdges
      in if length candidates = 0 then Some (Inr st)
         else (case find (\<lambda>candidate.
                            withinDistanceBudget g (currentDistanceMeters st) candidate
                              (currentNodeId st) startId maxDist)
                      (shortlistCandidates g (currentNodeId st) startId strat lf
                         (usedStreetNames st) candidates) of
                 None \<Rightarrow> Some (Inr st)
               | Some selectedEdge \<Rightarrow>
                   (case sp \<lparr>graph = g, startNodeId = currentNodeId st,
                             endNodeId = fromNodeId selectedEdge, weights = None\<rparr> of
                      None \<Rightarrow> None
                    | Some (Inl e) \<Rightarrow> Some (Inl e)
                    | Some (Inr toStart) \<Rightarrow>
                        if truthyNum maxDist
                           \<and> currentDistanceMeters st + totalDistanceMeters toStart
                               + lengthMeters selectedEdge > the maxDist
                        then Some (Inr st)
                        else selectionLoop sp g startId strat targets maxDist lf allEdges n
                               (recordSelection targets st selectedEdge toStart))))"

text \<open>
  The working graph (lines 203 to 217): the supplied graph or the seed graph, replaced by the
  street-area graph when a catalog answers with more than two streets. A catalog error is
  swallowed; a catalog that never answers stalls the optimizer.
\<close>

definition resolveGraph :: "CoverageRouteRequest \<Rightarrow> Dependencies \<Rightarrow> RoadGraph option" where
  "resolveGraph request deps =
     (let c = (case area request of None \<Rightarrow> start request | Some a \<Rightarrow> center a);
          g0 = (case dep_graph deps of
                  Some g \<Rightarrow> g
                | None \<Rightarrow> createSeedRoadGraph c (map_option radiusMeters (area request)))
      in case dep_streetCatalog deps of
           None \<Rightarrow> Some g0
         | Some fetchStreetCandidates \<Rightarrow>
             (case fetchStreetCandidates request of
                None \<Rightarrow> None
              | Some (Inl e) \<Rightarrow> Some g0
              | Some (Inr streets) \<Rightarrow>
                  Some (if length streets > 2 then createStreetAreaGraph (start request) streets
                        else g0)))"

definition letterFrequencyOf :: "TraversableEdge list \<Rightarrow> (string \<rightharpoonup> nat)" where
  "letterFrequencyOf allEdges =
     foldl (\<lambda>m edge. case firstLetter (streetName edge) of
                        None \<Rightarrow> m
                      | Some letter \<Rightarrow>
                          m(letter \<mapsto> (case m letter of None \<Rightarrow> 0 | Some n \<Rightarrow> n) + 1))
       Map.empty allEdges"

text \<open>
  \<^verbatim>\<open>optimizeCoverageRoute\<close>, in two parts. \<open>coverageRun\<close> is the body up to the return
  path (lines 201 to 324): it yields the strategy, the working graph, the requested letters,
  the state after the selection loop and the final list of traversed edges.
  \<open>coverageRoute\<close> is the \<^verbatim>\<open>return\<close> statement (lines 326 to 345). The two readings of
  the clock, \<^verbatim>\<open>Date.now()\<close> and \<^verbatim>\<open>new Date().toISOString()\<close>, are the parameters
  \<open>nowMs\<close> and \<open>nowIso\<close>.
\<close>

record CoverageRun =
  run_strategy :: CoverageStrategy
  run_graph :: RoadGraph
  run_targetLetters :: "string list"
  run_state :: SelectionState
  run_traversed :: "TraversableEdge list"

definition coverageRun ::
  "CoverageRouteRequest \<Rightarrow> Dependencies \<Rightarrow> (failure + CoverageRun) option" where
  "coverageRun request deps =
     (let strat = chooseCoverageStrategy request;
          shortestPath = (case dep_shortestPath deps of
                            None \<Rightarrow> InMemoryShortestPathAdapter | Some sp \<Rightarrow> sp)
      in case resolveGraph request deps of
           None \<Rightarrow> None
         | Some g \<Rightarrow>
             (case findNearestNodeId g (start request) of
                Inl e \<Rightarrow> Some (Inl (EngineError e))
              | Inr startId \<Rightarrow>
                  (let allEdges = uniqueEdges g;
                       targetLetters = normalizeAlphabet (req_alphabet request);
                       targetStreetNames = targetStreets request;
                       maxDist = maxDistanceMeters request
                   in case selectionLoop shortestPath g startId strat targetStreetNames maxDist
                             (letterFrequencyOf allEdges) allEdges
                             (nat (maxSelections strat targetLetters targetStreetNames maxDist))
                             \<lparr>currentNodeId = startId, currentDistanceMeters = 0, traversed = [],
                              coveredLetters = [], matchedCount = 0,
                              usedStreetNames = Map.empty, remaining = targetLetters\<rparr> of
                        None \<Rightarrow> None
                      | Some (Inl e) \<Rightarrow> Some (Inl e)
                      | Some (Inr st) \<Rightarrow>
                          (case shortestPath \<lparr>graph = g, startNodeId = currentNodeId st,
                                             endNodeId = startId, weights = None\<rparr> of
                             None \<Rightarrow> None
                           | Some (Inl e) \<Rightarrow> Some (Inl e)
                           | Some (Inr returnPath) \<Rightarrow>
                               Some (Inr
                                 \<lparr>run_strategy = strat, run_graph = g,
                                  run_targetLetters = targetLetters, run_state = st,
                                  run_traversed =
                                    (if \<not> truthyNum maxDist
                                        \<or> currentDistanceMeters st
                                            + totalDistanceMeters returnPath \<le> the maxDist
                                     then appendPath (traversed st) (traversedEdges returnPath)
                                     else traversed st)\<rparr>)))))"

definition coverageRoute ::
  "CoverageRouteRequest \<Rightarrow> nat \<Rightarrow> string \<Rightarrow> CoverageRun \<Rightarrow> GeneratedRoute" where
  "coverageRoute request nowMs nowIso run =
     (let quality = calculateCoverageQualityMetrics (run_traversed run)
      in \<lparr>route_id = ''route-'' @ showNat nowMs,
          mode = coverage,
          route_name = req_name request,
          route_distanceMeters = distanceOf (run_traversed run),
          createdAtIso = nowIso,
          segments = traversalsToSegments (run_graph run) (run_traversed run),
          route_coverage = Some
            \<lparr>cov_strategy = run_strategy run,
             lettersCovered = sort (coveredLetters (run_state run)),
             plannedLettersCovered = None,
             lettersRequested =
               (if run_strategy run = alphabet then run_targetLetters run else []),
             matchedStreetCount = matchedCount (run_state run),
             cov_maxDistanceMeters = maxDistanceMeters request,
             estimatedElevationGainMeters = q_estimatedElevationGainMeters quality,
             duplicateStreetPenalty = q_duplicateStreetPenalty quality,
             uniqueStreetCount = q_uniqueStreetCount quality,
             snappedToRoads = None,
             snapReason = None\<rparr>\<rparr>)"

definition optimizeCoverageRoute ::
  "CoverageRouteRequest \<Rightarrow> Dependencies \<Rightarrow> nat \<Rightarrow> string \<Rightarrow> (failure + GeneratedRoute) option" where
  "optimizeCoverageRoute request deps nowMs nowIso =
     map_option (map_sum id (coverageRoute request nowMs nowIso)) (coverageRun request deps)"

text \<open>What the geometry of a route is: its segments and its distance.\<close>

definition routeGeometry :: "GeneratedRoute \<Rightarrow> RouteSegment list \<times> real" where
  "routeGeometry r = (segments r, route_distanceMeters r)"

subsection \<open>A two-node graph and a request, used to evaluate the optimizer\<close>

text \<open>
  Two nodes S and T, 1110 metres apart by the engine's distance formula, a one-way edge
  "A St" from T to S and a one-way edge "B St" from S to T, both 1110 metres long. The
  request starts at S, asks for the letter A only and carries the distance cap \<open>m\<close>; the
  graph is supplied, the search adapter is the in-memory one and there is no catalog.
\<close>

definition nS :: RoadNode where
  "nS = \<lparr>node_id = ''S'', coordinate = \<lparr>lat = 0, lon = 0\<rparr>, elevationMeters = None\<rparr>"

definition nT :: RoadNode where
  "nT = \<lparr>node_id = ''T'', coordinate = \<lparr>lat = 1 / 100, lon = 0\<rparr>, elevationMeters = None\<rparr>"

definition eTS :: RoadEdge where
  "eTS = \<lparr>edge_id = ''e1'', edge_fromNodeId = ''T'', edge_toNodeId = ''S'', edge_streetName = ''A St'',
        edge_lengthMeters = 1110, bidirectional = False, edge_hasSidewalk = True,
        edge_litAtNight = True, edge_trafficStress = 1, edge_elevationGainMeters = 0\<rparr>"

definition eST :: RoadEdge where
  "eST = \<lparr>edge_id = ''e2'', edge_fromNodeId = ''S'', edge_toNodeId = ''T'', edge_streetName = ''B St'',
        edge_lengthMeters = 1110, bidirectional = False, edge_hasSidewalk = True,
        edge_litAtNight = True, edge_trafficStress = 1, edge_elevationGainMeters = 0\<rparr>"

definition loopGraph :: RoadGraph where
  "loopGraph = createRoadGraph [nS, nT] [eTS, eST]"

definition capRequest :: "real \<Rightarrow> CoverageRouteRequest" where
  "capRequest m = \<lparr>req_name = ''loop'', targetStreets = [], start = \<lparr>lat = 0, lon = 0\<rparr>,
      strategy = None, maxDistanceMeters = Some m, req_alphabet = Some [''A''], area = None\<rparr>"

definition loopDeps :: Dependencies where
  "loopDeps = \<lparr>dep_graph = Some loopGraph, dep_shortestPath = None, dep_streetCatalog = None\<rparr>"

subsection \<open>The optimizer against an adapter with a state of its own\<close>

text \<open>
  An adapter as the optimizer meets it: an object behind the \<^verbatim>\<open>ShortestPathAdapter\<close>
  interface, whose answer to \<^verbatim>\<open>findPath\<close> may depend on more than the request (its own
  state, a remote service, the time of the call). That remainder is a value of type \<open>'a\<close>,
  which every call reads and may change. Such an adapter is deterministic when its answer,
  be it a result, an error or no answer at all, is the same whatever that value is.
\<close>

type_synonym 'a StatefulAdapter =
  "FindPathRequest \<Rightarrow> 'a \<Rightarrow> ((failure + PathResult) \<times> 'a) option"

definition deterministicAdapter :: "'a StatefulAdapter \<Rightarrow> bool" where
  "deterministicAdapter sp = (\<forall>q a b. map_option fst (sp q a) = map_option fst (sp q b))"

text \<open>
  What an invocation of the optimizer finds besides its arguments: the state of the adapter
  and the two readings of the clock.
\<close>

record 'a Surroundings =
  adapterState :: 'a
  clockMs :: nat
  clockIso :: string

text \<open>
  The selection loop and the optimizer against such an adapter, with no street catalog. They
  are \<open>selectionLoop\<close>, \<open>coverageRun\<close> and \<open>optimizeCoverageRoute\<close> with the adapter's state
  passed from one \<^verbatim>\<open>await shortestPath.findPath\<close> to the next.
\<close>

fun selectionLoopIn ::
  "'a StatefulAdapter \<Rightarrow> RoadGraph \<Rightarrow> string \<Rightarrow> CoverageStrategy
     \<Rightarrow> string list \<Rightarrow> real option \<Rightarrow> (string \<rightharpoonup> nat) \<Rightarrow> TraversableEdge list
     \<Rightarrow> nat \<Rightarrow> SelectionState \<Rightarrow> 'a \<Rightarrow> ((failure + SelectionState) \<times> 'a) option" where
  "selectionLoopIn sp g startId strat targets maxDist lf allEdges 0 st a = Some (Inr st, a)"
| "selectionLoopIn sp g startId strat targets maxDist lf allEdges (Suc n) st a =
     (let candidates = filter (isCandidate strat targets (remaining st)) allEdges
      in if length candidates = 0 then Some (Inr st, a)
         else (case find (\<lambda>candidate.
                            withinDistanceBudget g (currentDistanceMeters st) candidate
                              (currentNodeId st) startId maxDist)
                      (shortlistCandidates g (currentNodeId st) startId strat lf
                         (usedStreetNames st) candidates) of
                 None \<Rightarrow> Some (Inr st, a)
               | Some selectedEdge \<Rightarrow>
                   (case sp \<lparr>graph = g, startNodeId = currentNodeId st,
                             endNodeId = fromNodeId selectedEdge, weights = None\<rparr> a of
                      None \<Rightarrow> None
                    | Some (Inl e, a') \<Rightarrow> Some (Inl e, a')
                    | Some (Inr toStart, a') \<Rightarrow>
                        if truthyNum maxDist
                           \<and> currentDistanceMeters st + totalDistanceMeters toStart
                               + lengthMeters selectedEdge > the maxDist
                        then Some (Inr st, a')
                        else selectionLoopIn sp g startId strat targets maxDist lf allEdges n
                               (recordSelection targets st selectedEdge toStart) a')))"

definition coverageRunIn ::
  "CoverageRouteRequest \<Rightarrow> RoadGraph option \<Rightarrow> 'a StatefulAdapter \<Rightarrow> 'a
     \<Rightarrow> ((failure + CoverageRun) \<times> 'a) option" where
  "coverageRunIn request suppliedGraph shortestPath a =
     (let strat = chooseCoverageStrategy request
      in case resolveGraph request
                \<lparr>dep_graph = suppliedGraph, dep_shortestPath = None, dep_streetCatalog = None\<rparr> of
           None \<Rightarrow> None
         | Some g \<Rightarrow>
             (case findNearestNodeId g (start request) of
                Inl e \<Rightarrow> Some (Inl (EngineError e), a)
              | Inr startId \<Rightarrow>
                  (let allEdges = uniqueEdges g;
                       targetLetters = normalizeAlphabet (req_alphabet request);
                       targetStreetNames = targetStreets request;
                       maxDist = maxDistanceMeters request
                   in case selectionLoopIn shortestPath g startId strat targetStreetNames maxDist
                             (letterFrequencyOf allEdges) allEdges
                             (nat (maxSelections strat targetLetters targetStreetNames maxDist))
                             \<lparr>currentNodeId = startId, currentDistanceMeters = 0, traversed = [],
                              coveredLetters = [], matchedCount = 0,
                              usedStreetNames = Map.empty, remaining = targetLetters\<rparr> a of
                        None \<Rightarrow> None
                      | Some (Inl e, a') \<Rightarrow> Some (Inl e, a')
                      | Some (Inr st, a') \<Rightarrow>
                          (case shortestPath \<lparr>graph = g, startNodeId = currentNodeId st,
                                             endNodeId = startId, weights = None\<rparr> a' of
                             None \<Rightarrow> None
                           | Some (Inl e, a'') \<Rightarrow> Some (Inl e, a'')
                           | Some (Inr returnPath, a'') \<Rightarrow>
                               Some (Inr
                                 \<lparr>run_strategy = strat, run_graph = g,
                                  run_targetLetters = targetLetters, run_state = st,
                                  run_traversed =
                                    (if \<not> truthyNum maxDist
                                        \<or> currentDistanceMeters st
                                            + totalDistanceMeters returnPath \<le> the maxDist
                                     then appendPath (traversed st) (traversedEdges returnPath)
                                     else traversed st)\<rparr>, a'')))))"

definition optimizeCoverageRouteIn ::
  "CoverageRouteRequest \<Rightarrow> RoadGraph option \<Rightarrow> 'a StatefulAdapter \<Rightarrow> 'a Surroundings
     \<Rightarrow> (failure + GeneratedRoute) option" where
  "optimizeCoverageRouteIn request suppliedGraph shortestPath around =
     map_option (\<lambda>(outcome, a). map_sum id (coverageRoute request (clockMs around) (clockIso around)) outcome)
       (coverageRunIn request suppliedGraph shortestPath (adapterState around))"

text \<open>
  Two adapters over the state of a counter or of a switch. The first answers as the
  in-memory search does and counts its calls. The second answers with a path of no edge or
  of one edge, as its switch stands.
\<close>

definition countingAdapter :: "nat StatefulAdapter" where
  "countingAdapter q n = map_option (\<lambda>r. (r, Suc n)) (InMemoryShortestPathAdapter q)"

definition fickleAdapter :: "bool StatefulAdapter" where
  "fickleAdapter q detour =
     Some (Inr \<lparr>nodeIds = [startNodeId q],
                traversedEdges = (if detour then [forwardEdge eST] else []),
                totalDistanceMeters = 0, totalCost = 0\<rparr>, detour)"

definition zRequest :: CoverageRouteRequest where
  "zRequest = \<lparr>req_name = ''z'', targetStreets = [], start = \<lparr>lat = 0, lon = 0\<rparr>,
      strategy = None, maxDistanceMeters = None, req_alphabet = Some [''Z''], area = None\<rparr>"

subsection \<open>Notions used to state and prove the properties of the search\<close>

text \<open>
  The cost \<^verbatim>\<open>findPath\<close> adds when a state at node \<open>n\<close>, entered from \<open>p\<close>, takes the edge
  \<open>ed\<close>: the edge score plus the turn score (lines 97 to 106).
\<close>

definition stepCost ::
  "RoadGraph \<Rightarrow> RouteObjectiveWeights \<Rightarrow> string option \<Rightarrow> string \<Rightarrow> TraversableEdge \<Rightarrow> real" where
  "stepCost g w p n ed = scoreEdgeTraversal ed w + turnCost g w p n (toNodeId ed)"

text \<open>
  A directed path from \<open>s\<close>: \<open>s\<close> itself, or the target of an edge listed in the adjacency
  index under a node that has one.
\<close>

inductive reachable :: "RoadGraph \<Rightarrow> string \<Rightarrow> string \<Rightarrow> bool" for g s where
  here: "reachable g s s"
| step: "reachable g s a \<Longrightarrow> ed \<in> set (outgoing g a) \<Longrightarrow> reachable g s (toNodeId ed)"

text \<open>
  The finitely many ways the search can relax an edge: the node the expanded state came from,
  the node it is at and one of the edges listed under that node. A way is \<open>dead\<close> once the
  best cost recorded for its target key is no more than \<open>lb\<close> plus the cost of the step; the
  ways that are \<open>live\<close> at the lowest frontier cost bound the work left.
\<close>

definition triples :: "RoadGraph \<Rightarrow> (string option \<times> string \<times> TraversableEdge) set" where
  "triples g =
     insert None (Some ` fst ` set (traversableFrom g))
     \<times> (SIGMA n : fst ` set (traversableFrom g). set (outgoing g n))"

definition dead ::
  "RoadGraph \<Rightarrow> RouteObjectiveWeights \<Rightarrow> (string \<rightharpoonup> real) \<Rightarrow> real
     \<Rightarrow> string option \<times> string \<times> TraversableEdge \<Rightarrow> bool" where
  "dead g w best lb t =
     (case t of (p, n, ed) \<Rightarrow>
        (case best (createKey (toNodeId ed) (Some n)) of
           None \<Rightarrow> False
         | Some b \<Rightarrow> b \<le> lb + stepCost g w p n ed))"

definition best_le :: "(string \<rightharpoonup> real) \<Rightarrow> (string \<rightharpoonup> real) \<Rightarrow> bool" where
  "best_le b b' = (\<forall>k v. b k = Some v \<longrightarrow> (\<exists>v'. b' k = Some v' \<and> v' \<le> v))"

definition lowest :: "SearchState \<Rightarrow> real" where
  "lowest st = cost (hd (sort_key cost (open_list st)))"

definition live :: "RoadGraph \<Rightarrow> RouteObjectiveWeights \<Rightarrow> SearchState
    \<Rightarrow> (string option \<times> string \<times> TraversableEdge) set" where
  "live g w st = {t \<in> triples g. \<not> dead g w (bestCostByState st) (lowest st) t}"

text \<open>What holds of every state of the frontier during a search from \<open>s\<close>.\<close>

definition frontierOk :: "RoadGraph \<Rightarrow> string \<Rightarrow> SearchState \<Rightarrow> bool" where
  "frontierOk g s st =
     (\<forall>x \<in> set (open_list st). reachable g s (nodeId x)
         \<and> previousNodeId x \<in> insert None (Some ` fst ` set (traversableFrom g)))"

text \<open>
  The ranges the data model gives: weights that are not negative, edge lengths that are not
  negative and a traffic stress of at least 1.
\<close>

definition nonNegativeWeights :: "RouteObjectiveWeights \<Rightarrow> bool" where
  "nonNegativeWeights w =
     (0 \<le> distance w \<and> 0 \<le> elevation w \<and> 0 \<le> turns w \<and> 0 \<le> safety w \<and> 0 \<le> uTurn w)"

definition edgesInRange :: "RoadGraph \<Rightarrow> bool" where
  "edgesInRange g =
     (\<forall>ed \<in> set (concat (Map_values (traversableFrom g))).
        0 \<le> lengthMeters ed \<and> 1 \<le> trafficStress ed)"

text \<open>A small graph: a one-way street from A to B.\<close>

definition deadEnd :: RoadGraph where
  "deadEnd = createRoadGraph []
     [\<lparr>edge_id = ''ab'', edge_fromNodeId = ''A'', edge_toNodeId = ''B'', edge_streetName = ''Main St'',
       edge_lengthMeters = 100, bidirectional = False, edge_hasSidewalk = True,
       edge_litAtNight = True, edge_trafficStress = 1, edge_elevationGainMeters = 0\<rparr>]"

section \<open>Properties\<close>

subsection \<open>Path reconstruction\<close>

lemma createKey_nonempty: "createKey n p \<noteq> []"
  by (simp add: createKey_def)

lemma findPath_start_is_goal:
  "findPath \<lparr>graph = g, startNodeId = s, endNodeId = s, weights = w\<rparr> =
     Some (Inr \<lparr>nodeIds = [s], traversedEdges = [], totalDistanceMeters = 0, totalCost = 0\<rparr>)"
proof -
  let ?i = "initialState s"
  have k: "key ?i = createKey s None" and p: "parentKey ?i = None"
    by (simp_all add: initialState_def)
  have "walkBack [key ?i \<mapsto> ?i] (Some (key ?i)) [] = Some [?i]"
    by (subst walkBack.simps, simp add: k createKey_nonempty,
        subst walkBack.simps, simp add: p)
  then have "reconstructPath [key ?i \<mapsto> ?i] (key ?i) =
      Some \<lparr>nodeIds = [s], traversedEdges = [], totalDistanceMeters = 0, totalCost = 0\<rparr>"
    by (simp add: reconstructPath_def pathOfStates_def initialState_def List.map_filter_def)
  then show ?thesis
    by (simp add: findPath_def Let_def, subst searchLoop.simps)
       (simp add: initialState_def)
qed

text \<open>
  C10. For every graph, every weights and every node id \<open>s\<close>, whether or not \<open>s\<close> is a
  node of the graph, \<^verbatim>\<open>findPath\<close> from \<open>s\<close> to \<open>s\<close> returns at once the path
  \<open>[s]\<close> with no traversed edge, distance 0 and cost 0.
\<close>

theorem findPath_same_node:
  "findPath \<lparr>graph = g, startNodeId = s, endNodeId = s, weights = w\<rparr> =
     Some (Inr \<lparr>nodeIds = [s], traversedEdges = [], totalDistanceMeters = 0, totalCost = 0\<rparr>)"
  by (rule findPath_start_is_goal)

subsection \<open>Graph construction\<close>

lemma map_of_Map_set: "map_of (Map_set m k v) = (map_of m)(k \<mapsto> v)"
  by (induction m k v rule: Map_set.induct) auto

lemma keys_Map_set: "fst ` set (Map_set m k v) = insert k (fst ` set m)"
  by (induction m k v rule: Map_set.induct) auto

lemma distinct_Map_set: "distinct (map fst m) \<Longrightarrow> distinct (map fst (Map_set m k v))"
  by (induction m k v rule: Map_set.induct) (auto simp: keys_Map_set)

lemma keys_foldl_Map_set:
  "fst ` set (foldl (\<lambda>m (k, v). Map_set m k v) m0 entries) = fst ` set m0 \<union> fst ` set entries"
proof (induction entries arbitrary: m0)
  case Nil
  then show ?case by simp
next
  case (Cons e entries)
  obtain k v where e: "e = (k, v)" by (cases e)
  show ?case by (simp add: e Cons.IH keys_Map_set)
qed

lemma keys_Map_new: "fst ` set (Map_new entries) = fst ` set entries"
  by (simp add: Map_new_def keys_foldl_Map_set)

lemma getOrEmpty_pushTraversable:
  "getOrEmpty (pushTraversable tf t) k =
     getOrEmpty tf k @ (if fromNodeId t = k then [t] else [])"
  by (simp add: getOrEmpty_def pushTraversable_def map_of_Map_set)

lemma directedTraversals_eq:
  "directedTraversals e = (if bidirectional e then [forwardEdge e, reverseEdge e] else [forwardEdge e])"
  by (simp add: directedTraversals_def forwardEdge_def reverseEdge_def)

lemma getOrEmpty_addRoadEdge:
  "getOrEmpty (addRoadEdge tf e) k =
     getOrEmpty tf k @ filter (\<lambda>t. fromNodeId t = k) (directedTraversals e)"
  by (simp add: addRoadEdge_def Let_def getOrEmpty_pushTraversable directedTraversals_eq)

lemma getOrEmpty_foldl_addRoadEdge:
  "getOrEmpty (foldl addRoadEdge tf es) k =
     getOrEmpty tf k @ filter (\<lambda>t. fromNodeId t = k) (concat (map directedTraversals es))"
  by (induction es arbitrary: tf) (simp_all add: getOrEmpty_addRoadEdge)

lemma keys_pushTraversable:
  "fst ` set (pushTraversable tf t) = insert (fromNodeId t) (fst ` set tf)"
  by (simp add: pushTraversable_def keys_Map_set)

lemma keys_addRoadEdge:
  "fst ` set (addRoadEdge tf e) = fst ` set tf \<union> fromNodeId ` set (directedTraversals e)"
  by (auto simp: addRoadEdge_def Let_def keys_pushTraversable directedTraversals_eq)

lemma keys_foldl_addRoadEdge:
  "fst ` set (foldl addRoadEdge tf es) =
     fst ` set tf \<union> fromNodeId ` set (concat (map directedTraversals es))"
  by (induction es arbitrary: tf) (auto simp: keys_addRoadEdge)

lemma distinct_addRoadEdge:
  "distinct (map fst tf) \<Longrightarrow> distinct (map fst (addRoadEdge tf e))"
  by (simp add: addRoadEdge_def Let_def pushTraversable_def distinct_Map_set)

lemma distinct_foldl_addRoadEdge:
  "distinct (map fst tf) \<Longrightarrow> distinct (map fst (foldl addRoadEdge tf es))"
  by (induction es arbitrary: tf) (simp_all add: distinct_addRoadEdge)

text \<open>
  C6 (as amended). For every list of nodes and edges, the node map of the graph built by
  \<^verbatim>\<open>createRoadGraph\<close> holds exactly the ids of the nodes passed in (edge endpoints
  are not checked against it), and the adjacency index holds for every edge exactly its
  directed traversals: under each node id, in input order, the forward traversal of every
  edge leaving it and the reverse traversal (endpoints exchanged, elevation gain negated,
  other fields equal) of every bidirectional edge arriving at it; one traversal for an edge
  that is not bidirectional, two for one that is. The index has one entry per node id with
  an outgoing traversal and no other entry.
\<close>

theorem createRoadGraph_adjacency:
  "outgoing (createRoadGraph ns es) k =
     filter (\<lambda>t. fromNodeId t = k) (concat (map directedTraversals es))
   \<and> fst ` set (traversableFrom (createRoadGraph ns es)) =
       fromNodeId ` set (concat (map directedTraversals es))
   \<and> distinct (map fst (traversableFrom (createRoadGraph ns es)))
   \<and> fst ` set (nodes (createRoadGraph ns es)) = node_id ` set ns"
proof -
  have "outgoing (createRoadGraph ns es) k =
     filter (\<lambda>t. fromNodeId t = k) (concat (map directedTraversals es))"
    by (simp add: createRoadGraph_def outgoing_def getOrEmpty_foldl_addRoadEdge)
       (simp add: getOrEmpty_def)
  moreover have "fst ` set (traversableFrom (createRoadGraph ns es)) =
       fromNodeId ` set (concat (map directedTraversals es))"
    by (simp add: createRoadGraph_def keys_foldl_addRoadEdge)
  moreover have "distinct (map fst (traversableFrom (createRoadGraph ns es)))"
    by (simp add: createRoadGraph_def distinct_foldl_addRoadEdge)
  moreover have "fst ` set (nodes (createRoadGraph ns es)) = node_id ` set ns"
    by (simp add: createRoadGraph_def keys_Map_new image_image)
  ultimately show ?thesis by simp
qed

text \<open>
  C6 as stated fails: \<^verbatim>\<open>createRoadGraph\<close> does not check endpoints. With no node
  and one edge from A to B, the node id A that the edge refers to is not in the node map.
\<close>

theorem createRoadGraph_endpoint_missing:
  "map_of (nodes (createRoadGraph []
      [\<lparr>edge_id = ''e'', edge_fromNodeId = ''A'', edge_toNodeId = ''B'', edge_streetName = ''Main St'',
        edge_lengthMeters = 100, bidirectional = True, edge_hasSidewalk = True,
        edge_litAtNight = True, edge_trafficStress = 1, edge_elevationGainMeters = 0\<rparr>])) ''A'' = None"
  by (simp add: createRoadGraph_def Map_new_def)


subsection \<open>Turn scoring\<close>

text \<open>
  C5. The claim asks that an immediate reversal (next coordinate equal to the previous one,
  both different from the current one) is charged the U-turn penalty \<open>100 * uTurn\<close>.
  \<^verbatim>\<open>angleBetweenDegrees\<close> measures the angle at the current point between the ray to
  the previous point and the ray to the next point, which is 0 for a reversal and 180 for
  going straight on; \<^verbatim>\<open>isUTurn = angle > 165\<close> therefore charges the penalty to
  straight continuations and nothing to a reversal. Evaluated at the reversal
  (0,0) \<rightarrow> (0,1) \<rightarrow> (0,0) with the default weights, the turn cost is 0, not at least 120.
\<close>

theorem scoreTurn_reversal_is_free:
  "scoreTurn \<lparr>lat = 0, lon = 0\<rparr> \<lparr>lat = 0, lon = 1\<rparr> \<lparr>lat = 0, lon = 0\<rparr>
     DEFAULT_ROUTE_OBJECTIVE_WEIGHTS = 0"
  by (simp add: scoreTurn_def angleBetweenDegrees_def Let_def)

text \<open>The same holds for every reversal and every weights.\<close>

lemma scoreTurn_reversal_zero: "a \<noteq> b \<Longrightarrow> scoreTurn a b a w = 0"
  by (simp add: scoreTurn_def angleBetweenDegrees_def Let_def)

text \<open>Going straight on, by contrast, is charged both the full bend penalty and the U-turn penalty.\<close>

lemma scoreTurn_straight_is_charged:
  "scoreTurn \<lparr>lat = 0, lon = 0\<rparr> \<lparr>lat = 0, lon = 1\<rparr> \<lparr>lat = 0, lon = 2\<rparr>
     DEFAULT_ROUTE_OBJECTIVE_WEIGHTS = 160"
  by (simp add: scoreTurn_def angleBetweenDegrees_def Let_def DEFAULT_ROUTE_OBJECTIVE_WEIGHTS_def)

subsection \<open>Nearest node\<close>

text \<open>
  C8. The claim asks for the "empty graph" failure exactly when the graph has no node, and
  for the only node's id on a one-node graph. \<^verbatim>\<open>findNearestNodeId\<close> uses the empty
  string both as "nothing found yet" and as a result: on the one-node graph whose node has
  the id \<^verbatim>\<open>""\<close> it fails with "Graph has no nodes.", for every input coordinate.
\<close>

theorem findNearestNodeId_empty_id_fails:
  "findNearestNodeId
     \<lparr>nodes = [([], \<lparr>node_id = [], coordinate = \<lparr>lat = 0, lon = 0\<rparr>, elevationMeters = None\<rparr>)],
      edges = [], traversableFrom = []\<rparr> c = Inl GraphHasNoNodes"
  by (simp add: findNearestNodeId_def Map_values_def nearestStep_def Let_def)

subsection \<open>Step costs are not negative under the default weights\<close>

lemma angleBetweenDegrees_nonneg: "0 \<le> angleBetweenDegrees a b c"
  by (simp add: angleBetweenDegrees_def Let_def arccos_lbound)

lemma scoreTurn_nonneg: "0 \<le> turns w \<Longrightarrow> 0 \<le> uTurn w \<Longrightarrow> 0 \<le> scoreTurn a b c w"
  using angleBetweenDegrees_nonneg [of a b c] by (simp add: scoreTurn_def Let_def)

lemma turnCost_nonneg: "0 \<le> turns w \<Longrightarrow> 0 \<le> uTurn w \<Longrightarrow> 0 \<le> turnCost g w p a n"
  by (simp add: turnCost_def scoreTurn_nonneg split: option.splits)




subsection \<open>The three-node path graph\<close>


subsection \<open>Coverage optimizer: selection budget\<close>

lemma firstLetter_digit: "firstLetter ''1'' = None"
  by (simp add: firstLetter_def toUpperCase_def toUpperChar_def)

lemma normalizeAlphabet_no_letter: "normalizeAlphabet (Some [''1'']) = []"
  by (simp add: normalizeAlphabet_def setOrder_def List.map_filter_def firstLetter_digit)

text \<open>
  C7 as stated fails in alphabet mode when no letter is requested: for the alphabet
  \<^verbatim>\<open>["1"]\<close>, which holds no letter, the budget is 1, where the claim's formula
  \<open>min(0, clamp(floor(8000 / 800), 6, 14))\<close> gives 0.
\<close>

theorem maxSelections_no_letter:
  "maxSelections alphabet (normalizeAlphabet (Some [''1''])) [] None = 1
   \<and> min (int (length (normalizeAlphabet (Some [''1''])))) (max 6 (min 14 \<lfloor>8000 / 800 :: real\<rfloor>)) = 0"
  by (simp add: normalizeAlphabet_no_letter maxSelections_def alphabetSelectionCap_def)

lemma toUpperChar_lower:
  "c \<in> set ''abcdefghijklmnopqrstuvwxyz'' \<Longrightarrow> toUpperChar c \<in> set ''ABCDEFGHIJKLMNOPQRSTUVWXYZ''"
  unfolding toUpperChar_def by (elim set_ConsD [elim_format] disjE) simp_all

lemma toUpperChar_other: "c \<notin> set ''abcdefghijklmnopqrstuvwxyz'' \<Longrightarrow> toUpperChar c = c"
  by (simp add: toUpperChar_def)

lemma toUpperChar_letter: "toUpperChar c \<in> set ''ABCDEFGHIJKLMNOPQRSTUVWXYZ'' \<longleftrightarrow> isLetter c"
proof (cases "c \<in> set ''abcdefghijklmnopqrstuvwxyz''")
  case True
  with toUpperChar_lower [OF True] show ?thesis unfolding isLetter_def by blast
next
  case False
  with toUpperChar_other [OF False] show ?thesis unfolding isLetter_def by simp
qed

lemma firstLetter_find:
  "firstLetter item = map_option (\<lambda>c. [toUpperChar c]) (find isLetter item)"
proof -
  have "(case filter (\<lambda>c. c \<in> set ''ABCDEFGHIJKLMNOPQRSTUVWXYZ'') (map toUpperChar item) of
           [] \<Rightarrow> None | c # _ \<Rightarrow> Some [c])
        = map_option (\<lambda>c. [toUpperChar c]) (find isLetter item)"
  proof (induction item)
    case Nil
    show ?case by simp
  next
    case (Cons c cs)
    show ?case
    proof (cases "isLetter c")
      case True
      with toUpperChar_letter [of c] show ?thesis by simp
    next
      case False
      with toUpperChar_letter [of c] Cons show ?thesis by simp
    qed
  qed
  then show ?thesis by (simp add: firstLetter_def toUpperCase_def)
qed

lemma setOrder_fold:
  "distinct acc \<Longrightarrow>
   distinct (foldl (\<lambda>acc x. if x \<in> set acc then acc else acc @ [x]) acc xs)
   \<and> set (foldl (\<lambda>acc x. if x \<in> set acc then acc else acc @ [x]) acc xs) = set acc \<union> set xs"
  by (induction xs arbitrary: acc) auto

lemma length_setOrder: "length (setOrder xs) = card (set xs)"
proof -
  from setOrder_fold [of "[]" xs] have "distinct (setOrder xs)" "set (setOrder xs) = set xs"
    by (simp_all add: setOrder_def)
  with distinct_card [of "setOrder xs"] show ?thesis by simp
qed

lemma toUpperChar_upper:
  "c \<in> set ''ABCDEFGHIJKLMNOPQRSTUVWXYZ'' \<Longrightarrow> toUpperChar c = c"
  unfolding toUpperChar_def by (elim set_ConsD [elim_format] disjE) simp_all

lemma firstLetter_upper:
  assumes "c \<in> set ''ABCDEFGHIJKLMNOPQRSTUVWXYZ''"
  shows "firstLetter [c] = Some [c]"
proof -
  from assms have "isLetter c" unfolding isLetter_def by (rule disjI2)
  with toUpperChar_upper [OF assms] show ?thesis by (simp add: firstLetter_find)
qed

lemma map_filter_singletons:
  "\<forall>c \<in> set cs. f [c] = Some [c] \<Longrightarrow> List.map_filter f (map (\<lambda>c. [c]) cs) = map (\<lambda>c. [c]) cs"
  by (induction cs) (simp_all add: List.map_filter_def)

lemma map_filter_firstLetter_ALPHABET: "List.map_filter firstLetter ALPHABET = ALPHABET"
  unfolding ALPHABET_def by (rule map_filter_singletons) (rule ballI, rule firstLetter_upper)

lemma card_ALPHABET: "card (set ALPHABET) = 26"
proof -
  have "distinct ''ABCDEFGHIJKLMNOPQRSTUVWXYZ''" by simp
  then have "distinct ALPHABET" unfolding ALPHABET_def by (simp only: distinct_map) (simp add: inj_on_def)
  then have "card (set ALPHABET) = length ALPHABET" by (rule distinct_card)
  then show ?thesis by (simp add: ALPHABET_def)
qed

lemma length_normalizeAlphabet:
  "length (normalizeAlphabet input) = requestedLetterCount input"
proof -
  have fl: "firstLetter = (\<lambda>item. map_option (\<lambda>c. [toUpperChar c]) (find isLetter item))"
    by (rule ext) (rule firstLetter_find)
  show ?thesis
  proof (cases input)
    case None
    then show ?thesis
      by (simp add: normalizeAlphabet_def requestedLetterCount_def requestedLetters_def
          length_setOrder map_filter_firstLetter_ALPHABET)
  next
    case (Some xs)
    show ?thesis
    proof (cases "xs = []")
      case True
      with Some show ?thesis
        by (simp add: normalizeAlphabet_def requestedLetterCount_def requestedLetters_def
            length_setOrder map_filter_firstLetter_ALPHABET)
    next
      case False
      with Some show ?thesis
        by (simp add: normalizeAlphabet_def requestedLetterCount_def requestedLetters_def
            length_setOrder fl)
    qed
  qed
qed

text \<open>
  C7 (as amended). For every request whose alphabet holds ASCII strings, the selection
  budget is, in alphabet mode, \<open>max(1, min(requestedLetterCount, clamp(floor(cap / 800), 6, 14)))\<close>,
  where \<open>requestedLetterCount\<close> is the number of distinct first letters of the entries of
  the alphabet, 26 when the alphabet is absent or empty, and \<open>cap\<close> is
  \<open>maxDistanceMeters\<close>, or 8000 when it is absent; in target-street mode it is
  \<open>max(3, targetStreetCount)\<close>. In alphabet mode this is the claim's formula as soon as one
  letter is requested.
\<close>

theorem selectionBudget_formula:
  assumes "asciiAlphabet (req_alphabet request)"
  shows "selectionBudget request =
           (case chooseCoverageStrategy request of
              alphabet \<Rightarrow>
                max 1 (min (int (requestedLetterCount (req_alphabet request)))
                         (clamp \<lfloor>(case maxDistanceMeters request of None \<Rightarrow> 8000 | Some m \<Rightarrow> m) / 800\<rfloor>
                            6 14))
            | target_streets \<Rightarrow> max 3 (int (length (targetStreets request))))
         \<and> (req_alphabet request = None \<or> req_alphabet request = Some []
              \<longrightarrow> requestedLetterCount (req_alphabet request) = 26)
         \<and> (chooseCoverageStrategy request = alphabet
              \<and> 1 \<le> requestedLetterCount (req_alphabet request)
              \<longrightarrow> selectionBudget request =
                    min (int (requestedLetterCount (req_alphabet request)))
                      (clamp \<lfloor>(case maxDistanceMeters request of None \<Rightarrow> 8000 | Some m \<Rightarrow> m) / 800\<rfloor>
                         6 14))"
proof (intro conjI impI)
  show "selectionBudget request =
           (case chooseCoverageStrategy request of
              alphabet \<Rightarrow>
                max 1 (min (int (requestedLetterCount (req_alphabet request)))
                         (clamp \<lfloor>(case maxDistanceMeters request of None \<Rightarrow> 8000 | Some m \<Rightarrow> m) / 800\<rfloor>
                            6 14))
            | target_streets \<Rightarrow> max 3 (int (length (targetStreets request))))"
    by (cases "chooseCoverageStrategy request")
      (simp_all add: selectionBudget_def maxSelections_def alphabetSelectionCap_def clamp_def
        length_normalizeAlphabet Let_def)
  show "requestedLetterCount (req_alphabet request) = 26"
    if "req_alphabet request = None \<or> req_alphabet request = Some []"
    using that by (auto simp: requestedLetterCount_def requestedLetters_def card_ALPHABET)
  show "selectionBudget request =
               min (int (requestedLetterCount (req_alphabet request)))
                 (clamp \<lfloor>(case maxDistanceMeters request of None \<Rightarrow> 8000 | Some m \<Rightarrow> m) / 800\<rfloor>
                    6 14)"
    if "chooseCoverageStrategy request = alphabet
        \<and> 1 \<le> requestedLetterCount (req_alphabet request)"
    using that
    by (simp add: selectionBudget_def maxSelections_def alphabetSelectionCap_def clamp_def
        length_normalizeAlphabet)
qed

lemma letterRequest_ascii: "asciiAlphabet (req_alphabet letterRequest)"
  by (simp add: asciiAlphabet_def letterRequest_def)

lemma letterRequest_count: "requestedLetterCount (req_alphabet letterRequest) = 2"
  by (simp add: requestedLetterCount_def requestedLetters_def letterRequest_def
      List.map_filter_def isLetter_def toUpperChar_def)

theorem selectionBudget_formula_witness:
  "asciiAlphabet (req_alphabet letterRequest)
   \<and> chooseCoverageStrategy letterRequest = alphabet
   \<and> requestedLetterCount (req_alphabet letterRequest) = 2
   \<and> selectionBudget letterRequest = 2
   \<and> requestedLetterCount (req_alphabet (letterRequest\<lparr>req_alphabet := None\<rparr>)) = 26
   \<and> selectionBudget (letterRequest\<lparr>req_alphabet := None\<rparr>) = 6"
proof -
  let ?r = "letterRequest\<lparr>req_alphabet := None\<rparr>"
  have s: "chooseCoverageStrategy letterRequest = alphabet" "chooseCoverageStrategy ?r = alphabet"
    by (simp_all add: letterRequest_def chooseCoverageStrategy_def)
  have m: "maxDistanceMeters letterRequest = Some 4000"
    by (simp add: letterRequest_def)
  have a: "asciiAlphabet (req_alphabet ?r)"
    by (simp add: asciiAlphabet_def)
  from selectionBudget_formula [OF letterRequest_ascii] selectionBudget_formula [OF a]
  show ?thesis
    by (simp add: s m letterRequest_ascii letterRequest_count clamp_def)
qed

subsection \<open>Coverage optimizer: the distance cap\<close>

lemma approximateDistanceMeters_nonneg: "0 \<le> approximateDistanceMeters a b"
proof -
  have "round (0::real) \<le> round (sqrt x)" if "0 \<le> x" for x
    by (rule round_mono) (simp add: that)
  then show ?thesis
    by (simp add: approximateDistanceMeters_def Let_def)
qed

lemma approximateNodeDistanceMeters_nonneg: "0 \<le> approximateNodeDistanceMeters g a b"
  by (simp add: approximateNodeDistanceMeters_def approximateDistanceMeters_nonneg
      split: option.splits)

lemma uniqueStep_subset: "set (snd (uniqueStep acc e)) \<subseteq> set (snd acc) \<union> {e}"
  by (cases acc) (auto simp: uniqueStep_def)

lemma uniqueEdges_fold_subset:
  "set (snd (foldl uniqueStep acc xs)) \<subseteq> set (snd acc) \<union> set xs"
proof (induction xs arbitrary: acc)
  case Nil
  then show ?case by simp
next
  case (Cons x xs)
  show ?case
    using Cons.IH [of "uniqueStep acc x"] uniqueStep_subset [of acc x] by auto
qed

lemma uniqueEdges_subset: "set (uniqueEdges g) \<subseteq> set (concat (Map_values (traversableFrom g)))"
  using uniqueEdges_fold_subset [of "([], [])" "concat (Map_values (traversableFrom g))"]
  by (simp add: uniqueEdges_def)

lemma shortlistCandidates_subset:
  "set (shortlistCandidates g c s strat lf used candidates) \<subseteq> set candidates"
proof -
  have "set (take 20 (sort_key snd xs)) \<subseteq> set xs" for xs :: "(TraversableEdge \<times> real) list"
    using set_take_subset [of 20 "sort_key snd xs"] by simp
  then show ?thesis
    unfolding shortlistCandidates_def by fastforce
qed

lemma withinDistanceBudget_small_cap:
  assumes "m \<noteq> 0" "m < lengthMeters e"
  shows "\<not> withinDistanceBudget g 0 e c s (Some m)"
  using assms approximateNodeDistanceMeters_nonneg [of g c "fromNodeId e"]
    approximateNodeDistanceMeters_nonneg [of g "toNodeId e" s]
  by (simp add: withinDistanceBudget_def Let_def)

lemma selectionLoop_no_selection:
  assumes "m \<noteq> 0" "\<forall>e \<in> set allEdges. m < lengthMeters e" "currentDistanceMeters st = 0"
  shows "selectionLoop sp g s strat targets (Some m) lf allEdges n st = Some (Inr st)"
proof (cases n)
  case 0
  then show ?thesis by simp
next
  case (Suc k)
  let ?cands = "filter (isCandidate strat targets (remaining st)) allEdges"
  have "\<not> withinDistanceBudget g (currentDistanceMeters st) c (currentNodeId st) s (Some m)"
    if "c \<in> set (shortlistCandidates g (currentNodeId st) s strat lf (usedStreetNames st) ?cands)" for c
  proof -
    from that shortlistCandidates_subset have "c \<in> set allEdges" by fastforce
    with assms show ?thesis by (simp add: withinDistanceBudget_small_cap)
  qed
  then have "find (\<lambda>c. withinDistanceBudget g (currentDistanceMeters st) c (currentNodeId st) s (Some m))
     (shortlistCandidates g (currentNodeId st) s strat lf (usedStreetNames st) ?cands) = None"
    by (simp add: find_None_iff)
  then show ?thesis by (simp add: Suc Let_def)
qed

lemma findPath_single_hop:
  assumes out: "outgoing g s = [e]" and t: "toNodeId e = t" "t \<noteq> s"
    and keys: "createKey t (Some s) \<noteq> createKey s None"
  shows "findPath \<lparr>graph = g, startNodeId = s, endNodeId = t, weights = None\<rparr> =
     Some (Inr \<lparr>nodeIds = [s, t], traversedEdges = [e], totalDistanceMeters = lengthMeters e,
                totalCost = scoreEdgeTraversal e DEFAULT_ROUTE_OBJECTIVE_WEIGHTS\<rparr>)"
proof -
  let ?w = DEFAULT_ROUTE_OBJECTIVE_WEIGHTS
  define k0 where "k0 = createKey s None"
  define k1 where "k1 = createKey t (Some s)"
  define s0 where "s0 = initialState s"
  define s1 where "s1 = \<lparr>key = k1, nodeId = t, previousNodeId = Some s,
      cost = scoreEdgeTraversal e ?w, state_distanceMeters = lengthMeters e,
      parentKey = Some k0, viaEdge = Some e\<rparr>"
  have k: "k1 \<noteq> k0" "k0 \<noteq> []" "k1 \<noteq> []"
    using keys by (simp_all add: k0_def k1_def createKey_nonempty)
  have f0: "key s0 = k0" "nodeId s0 = s" "previousNodeId s0 = None" "cost s0 = 0"
    "state_distanceMeters s0 = 0" "parentKey s0 = None" "viaEdge s0 = None"
    by (simp_all add: s0_def initialState_def k0_def)
  have f1: "key s1 = k1" "nodeId s1 = t" "parentKey s1 = Some k0" "viaEdge s1 = Some e"
    "state_distanceMeters s1 = lengthMeters e" "cost s1 = scoreEdgeTraversal e ?w"
    by (simp_all add: s1_def)
  have relax: "relaxEdge g ?w s0 \<lparr>open_list = [], bestCostByState = [k0 \<mapsto> 0], stateMap = [k0 \<mapsto> s0]\<rparr> e
      = \<lparr>open_list = [s1], bestCostByState = [k0 \<mapsto> 0, k1 \<mapsto> cost s1],
         stateMap = [k0 \<mapsto> s0, k1 \<mapsto> s1]\<rparr>"
    using k by (simp add: relaxEdge_def Let_def t f0 f1 k1_def [symmetric] turnCost_def s1_def k0_def [symmetric])
  have step1: "searchLoop g ?w s t \<lparr>open_list = [s0], bestCostByState = [k0 \<mapsto> 0], stateMap = [k0 \<mapsto> s0]\<rparr>
     = searchLoop g ?w s t \<lparr>open_list = [s1], bestCostByState = [k0 \<mapsto> 0, k1 \<mapsto> cost s1],
         stateMap = [k0 \<mapsto> s0, k1 \<mapsto> s1]\<rparr>"
    using t by (subst searchLoop.simps) (simp add: f0 out relax)
  define sm where "sm = [k0 \<mapsto> s0, k1 \<mapsto> s1]"
  have sm: "sm k1 = Some s1" "sm k0 = Some s0"
    using k by (simp_all add: sm_def)
  have w0: "walkBack sm None xs = Some xs" for xs
    by (subst walkBack.simps) simp
  have w1: "walkBack sm (Some k0) xs = Some (xs @ [s0])" for xs
    by (subst walkBack.simps) (simp add: sm k f0 w0)
  have w2: "walkBack sm (Some k1) xs = Some (xs @ [s1, s0])" for xs
    by (subst walkBack.simps) (simp add: sm k f1 w1)
  have recon: "reconstructPath sm k1 = Some (pathOfStates [s0, s1])"
    by (simp add: reconstructPath_def w2)
  have step2: "searchLoop g ?w s t \<lparr>open_list = [s1], bestCostByState = bm, stateMap = sm\<rparr>
     = Some (Inr (pathOfStates [s0, s1]))" for bm
    by (subst searchLoop.simps) (simp add: f1 recon)
  have "findPath \<lparr>graph = g, startNodeId = s, endNodeId = t, weights = None\<rparr> =
      Some (Inr (pathOfStates [s0, s1]))"
    using step1 step2 by (simp add: findPath_def Let_def s0_def [symmetric] f0 sm_def)
  moreover have "pathOfStates [s0, s1] = \<lparr>nodeIds = [s, t], traversedEdges = [e],
      totalDistanceMeters = lengthMeters e, totalCost = scoreEdgeTraversal e ?w\<rparr>"
    by (simp add: pathOfStates_def f0 f1 List.map_filter_def)
  ultimately show ?thesis by simp
qed

lemma loopGraph_eq:
  "loopGraph = \<lparr>nodes = [(''S'', nS), (''T'', nT)],
                edges = [(''e1'', eTS), (''e2'', eST)],
                traversableFrom = [(''T'', [forwardEdge eTS]), (''S'', [forwardEdge eST])]\<rparr>"
  by (simp add: loopGraph_def createRoadGraph_def Map_new_def addRoadEdge_def pushTraversable_def
      getOrEmpty_def nS_def nT_def eTS_def eST_def forwardEdge_def)

lemma distanceMeters_T: "distanceMeters (coordinate nT) \<lparr>lat = 0, lon = 0\<rparr> = 1110"
proof -
  have "sqrt (1110 * 1110 :: real) = \<bar>1110\<bar>" by (rule real_sqrt_abs2)
  then have "sqrt 1232100 = 1110" by simp
  then show ?thesis by (simp add: distanceMeters_def nT_def Let_def)
qed

lemma nearest_S: "findNearestNodeId loopGraph \<lparr>lat = 0, lon = 0\<rparr> = Inr ''S''"
  by (simp add: findNearestNodeId_def loopGraph_eq Map_values_def nearestStep_def Let_def
      distanceMeters_T)
     (simp add: nS_def nT_def distanceMeters_def)

lemma firstLetter_A: "firstLetter ''A St'' = Some ''A''"
  by (simp add: firstLetter_def toUpperCase_def toUpperChar_def)

lemma firstLetter_B: "firstLetter ''B St'' = Some ''B''"
  by (simp add: firstLetter_def toUpperCase_def toUpperChar_def)

lemma firstLetter_A1: "firstLetter ''A'' = Some ''A''"
  by (simp add: firstLetter_def toUpperCase_def toUpperChar_def)

lemma normalizeAlphabet_A: "normalizeAlphabet (Some [''A'']) = [''A'']"
  by (simp add: normalizeAlphabet_def setOrder_def List.map_filter_def firstLetter_A1)

lemma uniqueEdges_loopGraph: "uniqueEdges loopGraph = [forwardEdge eTS, forwardEdge eST]"
  by (simp add: uniqueEdges_def uniqueStep_def loopGraph_eq Map_values_def uniqueEdgeKey_def
      forwardEdge_def eTS_def eST_def)

lemma outgoing_loopGraph:
  "outgoing loopGraph ''S'' = [forwardEdge eST]" "outgoing loopGraph ''T'' = [forwardEdge eTS]"
  by (simp_all add: outgoing_def getOrEmpty_def loopGraph_eq)

lemma path_S_T:
  "InMemoryShortestPathAdapter \<lparr>graph = loopGraph, startNodeId = ''S'', endNodeId = ''T'', weights = None\<rparr>
   = Some (Inr \<lparr>nodeIds = [''S'', ''T''], traversedEdges = [forwardEdge eST],
        totalDistanceMeters = 1110,
        totalCost = scoreEdgeTraversal (forwardEdge eST) DEFAULT_ROUTE_OBJECTIVE_WEIGHTS\<rparr>)"
  using findPath_single_hop [of loopGraph "''S''" "forwardEdge eST" "''T''"]
  by (simp add: InMemoryShortestPathAdapter_def outgoing_loopGraph forwardEdge_def eST_def createKey_def)

lemma path_T_S:
  "InMemoryShortestPathAdapter \<lparr>graph = loopGraph, startNodeId = ''T'', endNodeId = ''S'', weights = None\<rparr>
   = Some (Inr \<lparr>nodeIds = [''T'', ''S''], traversedEdges = [forwardEdge eTS],
        totalDistanceMeters = 1110,
        totalCost = scoreEdgeTraversal (forwardEdge eTS) DEFAULT_ROUTE_OBJECTIVE_WEIGHTS\<rparr>)"
  using findPath_single_hop [of loopGraph "''T''" "forwardEdge eTS" "''S''"]
  by (simp add: InMemoryShortestPathAdapter_def outgoing_loopGraph forwardEdge_def eTS_def createKey_def)

lemma loopGraph_fields: "streetName (forwardEdge eTS) = ''A St''" "streetName (forwardEdge eST) = ''B St''"
  "fromNodeId (forwardEdge eTS) = ''T''" "fromNodeId (forwardEdge eST) = ''S''"
  "toNodeId (forwardEdge eTS) = ''S''" "toNodeId (forwardEdge eST) = ''T''"
  "lengthMeters (forwardEdge eTS) = 1110" "lengthMeters (forwardEdge eST) = 1110"
  "fromCoordinate (forwardEdge eTS) = None" "fromCoordinate (forwardEdge eST) = None"
  "toCoordinate (forwardEdge eTS) = None" "toCoordinate (forwardEdge eST) = None"
  by (simp_all add: forwardEdge_def eTS_def eST_def)

lemma candidates_A:
  "isCandidate alphabet [] [''A''] (forwardEdge eTS)"
  "\<not> isCandidate alphabet [] [''A''] (forwardEdge eST)"
  by (simp_all add: isCandidate_def loopGraph_fields firstLetter_A firstLetter_B)

lemma loop_zero_cap:
  "selectionLoop InMemoryShortestPathAdapter loopGraph ''S'' alphabet [] (Some 0) lf
     [forwardEdge eTS, forwardEdge eST] (Suc 0)
     \<lparr>currentNodeId = ''S'', currentDistanceMeters = 0, traversed = [],
      coveredLetters = [], matchedCount = 0, usedStreetNames = Map.empty, remaining = [''A'']\<rparr>
   = Some (Inr (recordSelection []
       \<lparr>currentNodeId = ''S'', currentDistanceMeters = 0, traversed = [],
      coveredLetters = [], matchedCount = 0, usedStreetNames = Map.empty, remaining = [''A'']\<rparr>
       (forwardEdge eTS)
       \<lparr>nodeIds = [''S'', ''T''], traversedEdges = [forwardEdge eST],
        totalDistanceMeters = 1110,
        totalCost = scoreEdgeTraversal (forwardEdge eST) DEFAULT_ROUTE_OBJECTIVE_WEIGHTS\<rparr>))"
  by (simp add: candidates_A shortlistCandidates_def withinDistanceBudget_def loopGraph_fields path_S_T)

lemma run_zero_cap:
  "coverageRun (capRequest 0) loopDeps = Some (Inr
      \<lparr>run_strategy = alphabet, run_graph = loopGraph, run_targetLetters = [''A''],
       run_state = recordSelection []
       \<lparr>currentNodeId = ''S'', currentDistanceMeters = 0, traversed = [],
      coveredLetters = [], matchedCount = 0, usedStreetNames = Map.empty, remaining = [''A'']\<rparr>
       (forwardEdge eTS)
       \<lparr>nodeIds = [''S'', ''T''], traversedEdges = [forwardEdge eST],
        totalDistanceMeters = 1110,
        totalCost = scoreEdgeTraversal (forwardEdge eST) DEFAULT_ROUTE_OBJECTIVE_WEIGHTS\<rparr>,
       run_traversed = [forwardEdge eST, forwardEdge eTS]\<rparr>)"
proof -
  have a: "resolveGraph (capRequest 0) loopDeps = Some loopGraph"
    by (simp add: resolveGraph_def capRequest_def loopDeps_def)
  have b: "findNearestNodeId loopGraph (start (capRequest 0)) = Inr ''S''"
    by (simp add: capRequest_def nearest_S)
  have c: "chooseCoverageStrategy (capRequest 0) = alphabet"
    by (simp add: chooseCoverageStrategy_def capRequest_def)
  have d: "nat (maxSelections alphabet [''A''] [] (Some 0)) = Suc 0"
    by (simp add: maxSelections_def alphabetSelectionCap_def)
  have e: "req_alphabet (capRequest 0) = Some [''A'']" "targetStreets (capRequest 0) = []"
    "maxDistanceMeters (capRequest 0) = Some 0" "dep_shortestPath loopDeps = None"
    by (simp_all add: capRequest_def loopDeps_def)
  have f: "currentNodeId (recordSelection [] st (forwardEdge eTS) p) = ''T''"
      "traversed (recordSelection [] st (forwardEdge eTS) p) = traversed st @ traversedEdges p" for st p
    by (simp_all add: recordSelection_def Let_def loopGraph_fields appendPath_def)
  show ?thesis
    unfolding coverageRun_def
    by (simp only: Let_def a b c d e option.case sum.case normalizeAlphabet_A uniqueEdges_loopGraph
        loop_zero_cap path_T_S f truthyNum.simps PathResult.simps SelectionState.simps appendPath_def
        append_Nil append_Cons simp_thms if_True)
qed

text \<open>
  C4 as stated fails for a cap of 0. \<^verbatim>\<open>withinDistanceBudget\<close>, the projected-distance
  check and the return-path check all test \<^verbatim>\<open>maxDistanceMeters\<close> for truthiness, so a
  cap of 0 counts as no cap. On the two-node graph, with the cap 0, the optimizer selects
  "A St", walks S to T (1110 m), and appends the return path T to S (1110 m): two segments,
  2220 metres, more than the cap plus one edge length.
\<close>

theorem coverage_zero_cap_counterexample:
  "map_option (map_sum id routeGeometry) (optimizeCoverageRoute (capRequest 0) loopDeps 0 []) =
     Some (Inr ([\<lparr>seg_from = \<lparr>lat = 0, lon = 0\<rparr>, seg_to = \<lparr>lat = 1 / 100, lon = 0\<rparr>,
                   seg_streetName = Some ''B St''\<rparr>,
                 \<lparr>seg_from = \<lparr>lat = 1 / 100, lon = 0\<rparr>, seg_to = \<lparr>lat = 0, lon = 0\<rparr>,
                   seg_streetName = Some ''A St''\<rparr>], 2220))"
  by (simp add: optimizeCoverageRoute_def run_zero_cap routeGeometry_def coverageRoute_def Let_def
      distanceOf_def traversalsToSegments_def List.map_filter_def resolveCoordinate_def loopGraph_fields
      loopGraph_eq nS_def nT_def)

text \<open>
  C4 (as amended). When the coverage optimizer runs with the in-memory search adapter and a
  cap that is not 0 and is smaller than the length of every edge of the working graph, no
  anchor is selected and the return path, from the start node to itself, has no edge:
  the route has no segment and its \<open>distanceMeters\<close> is 0. (The working graph is the one
  the optimizer resolves; the start must snap to a node.)
\<close>

theorem coverage_cap_below_every_edge:
  assumes g: "resolveGraph request deps = Some g"
    and sp: "dep_shortestPath deps = None"
    and s: "findNearestNodeId g (start request) = Inr s"
    and m: "maxDistanceMeters request = Some m" "m \<noteq> 0"
    and small: "\<forall>e \<in> set (concat (Map_values (traversableFrom g))). m < lengthMeters e"
  shows "\<exists>r. optimizeCoverageRoute request deps nowMs nowIso = Some (Inr r)
           \<and> segments r = [] \<and> route_distanceMeters r = 0"
proof -
  let ?st0 = "\<lparr>currentNodeId = s, currentDistanceMeters = 0, traversed = [],
              coveredLetters = [], matchedCount = 0,
              usedStreetNames = Map.empty,
              remaining = normalizeAlphabet (req_alphabet request)\<rparr>"
  have all: "\<forall>e \<in> set (uniqueEdges g). m < lengthMeters e"
    using small uniqueEdges_subset by blast
  have loop: "selectionLoop sp' g s strat targets (Some m) lf (uniqueEdges g) n ?st0 = Some (Inr ?st0)"
    for sp' strat targets lf n
    using m(2) all by (simp add: selectionLoop_no_selection)
  have ret: "InMemoryShortestPathAdapter \<lparr>graph = g, startNodeId = s, endNodeId = s, weights = None\<rparr>
      = Some (Inr \<lparr>nodeIds = [s], traversedEdges = [], totalDistanceMeters = 0, totalCost = 0\<rparr>)"
    by (simp add: InMemoryShortestPathAdapter_def findPath_start_is_goal)
  have "coverageRun request deps = Some (Inr
            \<lparr>run_strategy = chooseCoverageStrategy request, run_graph = g,
             run_targetLetters = normalizeAlphabet (req_alphabet request), run_state = ?st0,
             run_traversed = []\<rparr>)"
    unfolding coverageRun_def
    by (simp only: Let_def g sp s m(1) option.case sum.case loop ret appendPath_def
          SelectionState.simps PathResult.simps append_Nil if_cancel)
  then obtain run where run: "coverageRun request deps = Some (Inr run)" "run_traversed run = []"
    by simp
  have "segments (coverageRoute request nowMs nowIso run) = []"
    "route_distanceMeters (coverageRoute request nowMs nowIso run) = 0"
    by (simp_all add: coverageRoute_def Let_def run(2) distanceOf_def
        traversalsToSegments_def List.map_filter_def)
  then show ?thesis
    by (simp add: optimizeCoverageRoute_def run(1))
qed


theorem coverage_cap_below_every_edge_witness:
  "\<exists>r. optimizeCoverageRoute (capRequest 500) loopDeps 0 [] = Some (Inr r)
        \<and> segments r = [] \<and> route_distanceMeters r = 0"
proof -
  have "resolveGraph (capRequest 500) loopDeps = Some loopGraph"
    by (simp add: resolveGraph_def capRequest_def loopDeps_def)
  moreover have "dep_shortestPath loopDeps = None"
    by (simp add: loopDeps_def)
  moreover have "findNearestNodeId loopGraph (start (capRequest 500)) = Inr ''S''"
    by (simp add: capRequest_def nearest_S)
  moreover have "maxDistanceMeters (capRequest 500) = Some 500"
    by (simp add: capRequest_def)
  moreover have "\<forall>e \<in> set (concat (Map_values (traversableFrom loopGraph))). 500 < lengthMeters e"
    by (simp add: loopGraph_eq Map_values_def loopGraph_fields)
  ultimately show ?thesis
    using coverage_cap_below_every_edge [of "capRequest 500" loopDeps loopGraph "''S''" 500 0 "[]"]
    by simp
qed

subsection \<open>Coverage optimizer: the route geometry is a function of the inputs\<close>

lemma selectionLoopIn_answers:
  assumes ans: "\<And>q a. map_option fst (sp q a) = answer q"
  shows "map_option fst (selectionLoopIn sp g startId strat targets maxDist lf allEdges n st a) =
         selectionLoop answer g startId strat targets maxDist lf allEdges n st"
proof (induction n arbitrary: st a)
  case 0
  show ?case by simp
next
  case (Suc n)
  let ?cands = "filter (isCandidate strat targets (remaining st)) allEdges"
  let ?pick = "find (\<lambda>candidate. withinDistanceBudget g (currentDistanceMeters st) candidate
                              (currentNodeId st) startId maxDist)
                 (shortlistCandidates g (currentNodeId st) startId strat lf (usedStreetNames st) ?cands)"
  show ?case
  proof (cases "length ?cands = 0")
    case True
    then show ?thesis by (simp add: Let_def)
  next
    case False
    note nonempty = this
    show ?thesis
    proof (cases ?pick)
      case None
      with nonempty show ?thesis by (simp add: Let_def)
    next
      case (Some selectedEdge)
      let ?q = "\<lparr>graph = g, startNodeId = currentNodeId st,
                 endNodeId = fromNodeId selectedEdge, weights = None\<rparr>"
      show ?thesis
      proof (cases "sp ?q a")
        case None
        with ans [of ?q a] have "answer ?q = None" by simp
        with None nonempty Some show ?thesis by (simp add: Let_def)
      next
        case answered: (Some ra)
        obtain r a' where ra: "ra = (r, a')" by (cases ra)
        from ans [of ?q a] answered ra have b: "answer ?q = Some r" by simp
        show ?thesis
        proof (cases r)
          case (Inl e)
          with answered ra b nonempty Some show ?thesis by (simp add: Let_def)
        next
          case (Inr toStart)
          with answered ra b nonempty Some Suc.IH [of "recordSelection targets st selectedEdge toStart" a']
          show ?thesis by (simp add: Let_def)
        qed
      qed
    qed
  qed
qed

lemma coverageRunIn_answers:
  assumes ans: "\<And>q a. map_option fst (sp q a) = answer q"
  shows "map_option fst (coverageRunIn request suppliedGraph sp a) =
         coverageRun request \<lparr>dep_graph = suppliedGraph,
           dep_shortestPath = Some answer, dep_streetCatalog = None\<rparr>"
proof -
  let ?deps = "\<lparr>dep_graph = suppliedGraph,
           dep_shortestPath = Some answer, dep_streetCatalog = None\<rparr>"
  have rg: "resolveGraph request ?deps =
        resolveGraph request \<lparr>dep_graph = suppliedGraph, dep_shortestPath = None, dep_streetCatalog = None\<rparr>"
    by (simp add: resolveGraph_def)
  show ?thesis
  proof (cases "resolveGraph request ?deps")
    case None
    with rg show ?thesis by (simp add: coverageRunIn_def coverageRun_def Let_def)
  next
    case (Some g)
    note g = this
    show ?thesis
    proof (cases "findNearestNodeId g (start request)")
      case (Inl e)
      with g rg show ?thesis by (simp add: coverageRunIn_def coverageRun_def Let_def)
    next
      case (Inr startId)
      let ?strat = "chooseCoverageStrategy request"
      let ?letters = "normalizeAlphabet (req_alphabet request)"
      let ?st0 = "\<lparr>currentNodeId = startId, currentDistanceMeters = 0, traversed = [],
                   coveredLetters = [], matchedCount = 0,
                   usedStreetNames = Map.empty, remaining = ?letters\<rparr>"
      let ?n = "nat (maxSelections ?strat ?letters (targetStreets request) (maxDistanceMeters request))"
      let ?loopIn = "selectionLoopIn sp g startId ?strat (targetStreets request)
                       (maxDistanceMeters request) (letterFrequencyOf (uniqueEdges g)) (uniqueEdges g)
                       ?n ?st0 a"
      let ?loop = "selectionLoop answer g startId ?strat (targetStreets request)
                       (maxDistanceMeters request) (letterFrequencyOf (uniqueEdges g)) (uniqueEdges g)
                       ?n ?st0"
      have loop: "map_option fst ?loopIn = ?loop"
        by (rule selectionLoopIn_answers [OF ans])
      show ?thesis
      proof (cases ?loopIn)
        case None
        with loop have "?loop = None" by simp
        with None g rg Inr show ?thesis
          by (simp add: coverageRunIn_def coverageRun_def Let_def)
      next
        case looped: (Some ra)
        obtain r a' where ra: "ra = (r, a')" by (cases ra)
        from loop looped ra have l: "?loop = Some r" by simp
        show ?thesis
        proof (cases r)
          case (Inl e)
          with looped ra l g rg Inr show ?thesis
            by (simp add: coverageRunIn_def coverageRun_def Let_def)
        next
          case st: (Inr st)
          let ?q = "\<lparr>graph = g, startNodeId = currentNodeId st, endNodeId = startId, weights = None\<rparr>"
          show ?thesis
          proof (cases "sp ?q a'")
            case None
            with ans [of ?q a'] have "answer ?q = None" by simp
            with None st looped ra l g rg Inr show ?thesis
              by (simp add: coverageRunIn_def coverageRun_def Let_def)
          next
            case answered: (Some pa)
            obtain p a'' where pa: "pa = (p, a'')" by (cases pa)
            from ans [of ?q a'] answered pa have "answer ?q = Some p" by simp
            with answered pa st looped ra l g rg Inr show ?thesis
              by (cases p) (simp_all add: coverageRunIn_def coverageRun_def Let_def)
          qed
        qed
      qed
    qed
  qed
qed

lemma optimizeCoverageRouteIn_answers:
  assumes det: "deterministicAdapter sp"
  shows "optimizeCoverageRouteIn request suppliedGraph sp around =
         optimizeCoverageRoute request \<lparr>dep_graph = suppliedGraph,
           dep_shortestPath = Some (\<lambda>q. map_option fst (sp q b)), dep_streetCatalog = None\<rparr>
           (clockMs around) (clockIso around)"
proof -
  from det have ans: "\<And>q a. map_option fst (sp q a) = (\<lambda>q. map_option fst (sp q b)) q"
    by (simp add: deterministicAdapter_def)
  have "optimizeCoverageRouteIn request suppliedGraph sp around =
        map_option (map_sum id (coverageRoute request (clockMs around) (clockIso around)))
          (map_option fst (coverageRunIn request suppliedGraph sp (adapterState around)))"
    by (simp add: optimizeCoverageRouteIn_def option.map_comp comp_def case_prod_unfold)
  also have "map_option fst (coverageRunIn request suppliedGraph sp (adapterState around)) =
         coverageRun request \<lparr>dep_graph = suppliedGraph,
           dep_shortestPath = Some (\<lambda>q. map_option fst (sp q b)), dep_streetCatalog = None\<rparr>"
    by (rule coverageRunIn_answers [OF ans])
  finally show ?thesis by (simp only: optimizeCoverageRoute_def)
qed

lemma routeGeometry_clock:
  "routeGeometry (coverageRoute request ms stamp run) = routeGeometry (coverageRoute request ms' stamp' run)"
  by (simp add: routeGeometry_def coverageRoute_def Let_def)

lemma optimizeCoverageRoute_clock:
  "map_option (map_sum id routeGeometry) (optimizeCoverageRoute request deps ms stamp) =
   map_option (map_sum id routeGeometry) (optimizeCoverageRoute request deps ms' stamp')"
proof (cases "coverageRun request deps")
  case None
  then show ?thesis by (simp add: optimizeCoverageRoute_def)
next
  case (Some outcome)
  then show ?thesis
    by (cases outcome) (simp_all add: optimizeCoverageRoute_def routeGeometry_clock [of request ms stamp _ ms' stamp'])
qed

lemma countingAdapter_deterministic: "deterministicAdapter countingAdapter"
  by (simp add: deterministicAdapter_def countingAdapter_def option.map_comp comp_def)

text \<open>
  C9. Two invocations of the coverage optimizer with the same request, the same supplied
  graph (or none), the same search adapter and no street catalog end the same way, and
  when they return routes these have identical segments and identical \<open>distanceMeters\<close>,
  whatever the state of the adapter and the readings of the clock that each invocation
  finds, provided the adapter is deterministic.
\<close>

theorem coverage_geometry_deterministic:
  assumes "deterministicAdapter sp"
  shows "map_option (map_sum id routeGeometry) (optimizeCoverageRouteIn request suppliedGraph sp around) =
         map_option (map_sum id routeGeometry) (optimizeCoverageRouteIn request suppliedGraph sp around')"
  by (simp only: optimizeCoverageRouteIn_answers [OF assms, of _ _ _ "adapterState around"])
    (rule optimizeCoverageRoute_clock)

lemma coverageRun_inMemory:
  "coverageRun request \<lparr>dep_graph = g, dep_shortestPath = Some InMemoryShortestPathAdapter,
                         dep_streetCatalog = c\<rparr> =
   coverageRun request \<lparr>dep_graph = g, dep_shortestPath = None, dep_streetCatalog = c\<rparr>"
proof -
  have rg: "resolveGraph request \<lparr>dep_graph = g, dep_shortestPath = Some InMemoryShortestPathAdapter,
                         dep_streetCatalog = c\<rparr> =
            resolveGraph request \<lparr>dep_graph = g, dep_shortestPath = None, dep_streetCatalog = c\<rparr>"
    by (simp add: resolveGraph_def)
  show ?thesis
    unfolding coverageRun_def by (simp only: rg Dependencies.simps option.case)
qed

lemma countingAdapter_zero_cap:
  "map_option (map_sum id routeGeometry)
     (optimizeCoverageRouteIn (capRequest 0) (Some loopGraph) countingAdapter around) =
   Some (Inr ([\<lparr>seg_from = \<lparr>lat = 0, lon = 0\<rparr>, seg_to = \<lparr>lat = 1 / 100, lon = 0\<rparr>,
                 seg_streetName = Some ''B St''\<rparr>,
               \<lparr>seg_from = \<lparr>lat = 1 / 100, lon = 0\<rparr>, seg_to = \<lparr>lat = 0, lon = 0\<rparr>,
                 seg_streetName = Some ''A St''\<rparr>], 2220))"
proof -
  have ans: "\<And>q a. map_option fst (countingAdapter q a) = InMemoryShortestPathAdapter q"
    by (simp add: countingAdapter_def option.map_comp comp_def option.map_ident)
  have "optimizeCoverageRouteIn (capRequest 0) (Some loopGraph) countingAdapter around =
        map_option (map_sum id (coverageRoute (capRequest 0) (clockMs around) (clockIso around)))
          (map_option fst (coverageRunIn (capRequest 0) (Some loopGraph) countingAdapter (adapterState around)))"
    by (simp add: optimizeCoverageRouteIn_def option.map_comp comp_def case_prod_unfold)
  also have "map_option fst (coverageRunIn (capRequest 0) (Some loopGraph) countingAdapter (adapterState around))
      = coverageRun (capRequest 0) loopDeps"
    by (simp only: coverageRunIn_answers [OF ans] coverageRun_inMemory loopDeps_def)
  finally show ?thesis
    by (simp add: run_zero_cap routeGeometry_def coverageRoute_def Let_def
      distanceOf_def traversalsToSegments_def List.map_filter_def resolveCoordinate_def loopGraph_fields
      loopGraph_eq nS_def nT_def)
qed

theorem coverage_geometry_deterministic_witness:
  "deterministicAdapter countingAdapter
   \<and> map_option (map_sum id routeGeometry)
        (optimizeCoverageRouteIn (capRequest 0) (Some loopGraph) countingAdapter
           \<lparr>adapterState = 0, clockMs = 1, clockIso = ''2026-01-01T00:00:00.001Z''\<rparr>) =
      map_option (map_sum id routeGeometry)
        (optimizeCoverageRouteIn (capRequest 0) (Some loopGraph) countingAdapter
           \<lparr>adapterState = 7, clockMs = 2, clockIso = ''2026-01-01T00:00:00.002Z''\<rparr>)
   \<and> map_option (map_sum id routeGeometry)
        (optimizeCoverageRouteIn (capRequest 0) (Some loopGraph) countingAdapter
           \<lparr>adapterState = 7, clockMs = 2, clockIso = ''2026-01-01T00:00:00.002Z''\<rparr>) =
      Some (Inr ([\<lparr>seg_from = \<lparr>lat = 0, lon = 0\<rparr>, seg_to = \<lparr>lat = 1 / 100, lon = 0\<rparr>,
                    seg_streetName = Some ''B St''\<rparr>,
                  \<lparr>seg_from = \<lparr>lat = 1 / 100, lon = 0\<rparr>, seg_to = \<lparr>lat = 0, lon = 0\<rparr>,
                    seg_streetName = Some ''A St''\<rparr>], 2220))"
  using coverage_geometry_deterministic [OF countingAdapter_deterministic,
      of "capRequest 0" "Some loopGraph"
        "\<lparr>adapterState = 0, clockMs = 1, clockIso = ''2026-01-01T00:00:00.001Z''\<rparr>"
        "\<lparr>adapterState = 7, clockMs = 2, clockIso = ''2026-01-01T00:00:00.002Z''\<rparr>"]
  by (simp only: countingAdapter_deterministic countingAdapter_zero_cap simp_thms)

text \<open>
  The proviso is needed. The adapter with a switch is not deterministic, and two invocations
  with the same request and the same graph that find the switch in different positions
  return routes of different length.
\<close>

lemma fickleAdapter_not_deterministic: "\<not> deterministicAdapter fickleAdapter"
proof
  assume "deterministicAdapter fickleAdapter"
  then have "map_option fst (fickleAdapter q True) = map_option fst (fickleAdapter q False)" for q
    by (simp add: deterministicAdapter_def)
  then show False by (simp add: fickleAdapter_def)
qed

lemma fickle_run:
  "coverageRunIn zRequest (Some loopGraph) fickleAdapter detour = Some (Inr
      \<lparr>run_strategy = alphabet, run_graph = loopGraph, run_targetLetters = [''Z''],
       run_state = \<lparr>currentNodeId = ''S'', currentDistanceMeters = 0, traversed = [],
          coveredLetters = [], matchedCount = 0, usedStreetNames = Map.empty, remaining = [''Z'']\<rparr>,
       run_traversed = (if detour then [forwardEdge eST] else [])\<rparr>, detour)"
proof -
  have a: "resolveGraph zRequest
      \<lparr>dep_graph = Some loopGraph, dep_shortestPath = None, dep_streetCatalog = None\<rparr> = Some loopGraph"
    by (simp add: resolveGraph_def zRequest_def)
  have b: "findNearestNodeId loopGraph (start zRequest) = Inr ''S''"
    by (simp add: zRequest_def nearest_S)
  have c: "chooseCoverageStrategy zRequest = alphabet"
    by (simp add: chooseCoverageStrategy_def zRequest_def)
  have z: "normalizeAlphabet (Some [''Z'']) = [''Z'']"
    by (simp add: normalizeAlphabet_def setOrder_def List.map_filter_def firstLetter_upper)
  have d: "nat (maxSelections alphabet [''Z''] [] None) = Suc 0"
    by (simp add: maxSelections_def alphabetSelectionCap_def)
  have e: "req_alphabet zRequest = Some [''Z'']" "targetStreets zRequest = []"
    "maxDistanceMeters zRequest = None"
    by (simp_all add: zRequest_def)
  have cand: "\<not> isCandidate alphabet [] [''Z''] (forwardEdge eTS)"
    "\<not> isCandidate alphabet [] [''Z''] (forwardEdge eST)"
    by (simp_all add: isCandidate_def loopGraph_fields firstLetter_A firstLetter_B)
  have loop: "selectionLoopIn fickleAdapter loopGraph ''S'' alphabet [] None lf
       [forwardEdge eTS, forwardEdge eST] (Suc 0)
       \<lparr>currentNodeId = ''S'', currentDistanceMeters = 0, traversed = [],
        coveredLetters = [], matchedCount = 0, usedStreetNames = Map.empty, remaining = [''Z'']\<rparr> detour
     = Some (Inr \<lparr>currentNodeId = ''S'', currentDistanceMeters = 0, traversed = [],
        coveredLetters = [], matchedCount = 0, usedStreetNames = Map.empty, remaining = [''Z'']\<rparr>, detour)"
    for lf
    by (simp add: cand)
  have ret: "fickleAdapter \<lparr>graph = loopGraph, startNodeId = ''S'', endNodeId = ''S'', weights = None\<rparr> detour
      = Some (Inr \<lparr>nodeIds = [''S''],
                traversedEdges = (if detour then [forwardEdge eST] else []),
                totalDistanceMeters = 0, totalCost = 0\<rparr>, detour)"
    by (simp add: fickleAdapter_def)
  show ?thesis
    unfolding coverageRunIn_def
    by (simp only: Let_def a b c d e z option.case sum.case prod.case uniqueEdges_loopGraph
        loop ret truthyNum.simps PathResult.simps SelectionState.simps appendPath_def
        append_Nil append_Cons simp_thms if_True)
qed

lemma fickleAdapter_geometry_differs:
  "map_option (map_sum id routeGeometry)
     (optimizeCoverageRouteIn zRequest (Some loopGraph) fickleAdapter
        \<lparr>adapterState = False, clockMs = 0, clockIso = []\<rparr>) = Some (Inr ([], 0))"
  "map_option (map_sum id routeGeometry)
     (optimizeCoverageRouteIn zRequest (Some loopGraph) fickleAdapter
        \<lparr>adapterState = True, clockMs = 0, clockIso = []\<rparr>) =
   Some (Inr ([\<lparr>seg_from = \<lparr>lat = 0, lon = 0\<rparr>, seg_to = \<lparr>lat = 1 / 100, lon = 0\<rparr>,
                 seg_streetName = Some ''B St''\<rparr>], 1110))"
proof -
  have run: "optimizeCoverageRouteIn zRequest (Some loopGraph) fickleAdapter
        \<lparr>adapterState = detour, clockMs = 0, clockIso = []\<rparr> =
      Some (Inr (coverageRoute zRequest 0 []
        \<lparr>run_strategy = alphabet, run_graph = loopGraph, run_targetLetters = [''Z''],
       run_state = \<lparr>currentNodeId = ''S'', currentDistanceMeters = 0, traversed = [],
          coveredLetters = [], matchedCount = 0, usedStreetNames = Map.empty, remaining = [''Z'']\<rparr>,
       run_traversed = (if detour then [forwardEdge eST] else [])\<rparr>))" for detour
    by (simp add: optimizeCoverageRouteIn_def fickle_run)
  show "map_option (map_sum id routeGeometry)
     (optimizeCoverageRouteIn zRequest (Some loopGraph) fickleAdapter
        \<lparr>adapterState = False, clockMs = 0, clockIso = []\<rparr>) = Some (Inr ([], 0))"
    by (simp add: run routeGeometry_def coverageRoute_def Let_def distanceOf_def
        traversalsToSegments_def List.map_filter_def)
  show "map_option (map_sum id routeGeometry)
     (optimizeCoverageRouteIn zRequest (Some loopGraph) fickleAdapter
        \<lparr>adapterState = True, clockMs = 0, clockIso = []\<rparr>) =
   Some (Inr ([\<lparr>seg_from = \<lparr>lat = 0, lon = 0\<rparr>, seg_to = \<lparr>lat = 1 / 100, lon = 0\<rparr>,
                 seg_streetName = Some ''B St''\<rparr>], 1110))"
    by (simp only: run)
      (simp add: routeGeometry_def coverageRoute_def Let_def distanceOf_def
        traversalsToSegments_def List.map_filter_def resolveCoordinate_def loopGraph_fields
        loopGraph_eq nS_def nT_def)
qed

subsection \<open>The search ends when no step has a negative cost\<close>

lemma finite_triples: "finite (triples g)"
  by (simp add: triples_def)

lemma best_le_refl: "best_le b b"
  by (simp add: best_le_def)

lemma best_le_trans: "best_le a b \<Longrightarrow> best_le b c \<Longrightarrow> best_le a c"
  unfolding best_le_def by (meson order_trans)

lemma best_le_upd: "(\<And>v. b k = Some v \<Longrightarrow> x \<le> v) \<Longrightarrow> best_le b (b(k \<mapsto> x))"
  by (auto simp: best_le_def)

lemma dead_mono: "dead g w b lb t \<Longrightarrow> best_le b b' \<Longrightarrow> lb \<le> lb' \<Longrightarrow> dead g w b' lb' t"
  unfolding dead_def best_le_def
  by (cases t) (fastforce split: option.splits)

lemma outgoing_key: "ed \<in> set (outgoing g n) \<Longrightarrow> n \<in> fst ` set (traversableFrom g)"
proof -
  assume a: "ed \<in> set (outgoing g n)"
  show ?thesis
  proof (cases "map_of (traversableFrom g) n")
    case None
    with a show ?thesis by (simp add: outgoing_def getOrEmpty_def)
  next
    case (Some es)
    then have "(n, es) \<in> set (traversableFrom g)" by (rule map_of_SomeD)
    then show ?thesis by force
  qed
qed

lemma relaxEdge_cases:
  fixes g w cur st ed
  defines "k \<equiv> createKey (toNodeId ed) (Some (nodeId cur))"
  defines "c \<equiv> cost cur + stepCost g w (previousNodeId cur) (nodeId cur) ed"
  obtains (skip) b where "relaxEdge g w cur st ed = st" "bestCostByState st k = Some b" "b \<le> c"
  | (push) ns where
      "relaxEdge g w cur st ed =
         \<lparr>open_list = open_list st @ [ns], bestCostByState = (bestCostByState st)(k \<mapsto> c),
          stateMap = (stateMap st)(k \<mapsto> ns)\<rparr>"
      "ns = \<lparr>key = k, nodeId = toNodeId ed, previousNodeId = Some (nodeId cur), cost = c,
             state_distanceMeters = state_distanceMeters cur + lengthMeters ed,
             parentKey = Some (key cur), viaEdge = Some ed\<rparr>"
      "\<And>b. bestCostByState st k = Some b \<Longrightarrow> c < b"
proof -
  let ?ns = "\<lparr>key = k, nodeId = toNodeId ed, previousNodeId = Some (nodeId cur), cost = c,
             state_distanceMeters = state_distanceMeters cur + lengthMeters ed,
             parentKey = Some (key cur), viaEdge = Some ed\<rparr>"
  have pushed: "relaxEdge g w cur st ed =
         \<lparr>open_list = open_list st @ [?ns], bestCostByState = (bestCostByState st)(k \<mapsto> c),
          stateMap = (stateMap st)(k \<mapsto> ?ns)\<rparr>"
    if "\<And>b. bestCostByState st k = Some b \<Longrightarrow> c < b"
    using that by (cases "bestCostByState st k")
      (simp_all add: relaxEdge_def Let_def k_def c_def stepCost_def add.assoc)
  show ?thesis
  proof (cases "bestCostByState st k")
    case None
    then show ?thesis using pushed push [of ?ns] by simp
  next
    case (Some b)
    show ?thesis
    proof (cases "b \<le> c")
      case True
      with Some have "relaxEdge g w cur st ed = st"
        by (simp add: relaxEdge_def Let_def k_def c_def stepCost_def add.assoc)
      then show ?thesis using Some True by (rule skip)
    next
      case False
      then show ?thesis using Some pushed push [of ?ns] by simp
    qed
  qed
qed

lemma sort_key_head:
  assumes "sort_key f xs = y # ys"
  shows "y \<in> set xs" "set ys \<subseteq> set xs" "\<forall>x \<in> set ys. f y \<le> f x" "Suc (length ys) = length xs"
    "\<forall>x \<in> set xs. f y \<le> f x"
proof -
  have s: "set xs = set (y # ys)" using assms set_sort [of f xs] by simp
  then show "y \<in> set xs" "set ys \<subseteq> set xs" by auto
  have "sorted (map f (y # ys))" using assms sorted_sort_key [of f xs] by simp
  then show *: "\<forall>x \<in> set ys. f y \<le> f x" by simp
  show "Suc (length ys) = length xs" using assms length_sort [of f xs] by simp
  show "\<forall>x \<in> set xs. f y \<le> f x" using * s by auto
qed

lemma fold_relax:
  assumes nonneg: "\<forall>ed \<in> set es. 0 \<le> stepCost g w (previousNodeId cur) (nodeId cur) ed"
  shows "\<exists>new. open_list (foldl (relaxEdge g w cur) st es) = open_list st @ new
      \<and> (\<forall>ns \<in> set new. cost cur \<le> cost ns \<and> previousNodeId ns = Some (nodeId cur)
             \<and> nodeId ns \<in> toNodeId ` set es)
      \<and> best_le (bestCostByState st) (bestCostByState (foldl (relaxEdge g w cur) st es))
      \<and> (new \<noteq> [] \<longrightarrow> (\<exists>ed \<in> set es.
             \<not> dead g w (bestCostByState st) (cost cur) (previousNodeId cur, nodeId cur, ed)
             \<and> dead g w (bestCostByState (foldl (relaxEdge g w cur) st es)) (cost cur)
                   (previousNodeId cur, nodeId cur, ed)))"
  using nonneg
proof (induction es arbitrary: st)
  case Nil
  show ?case by (simp add: best_le_refl)
next
  case (Cons ed es)
  let ?st1 = "relaxEdge g w cur st ed"
  let ?st' = "foldl (relaxEdge g w cur) ?st1 es"
  let ?k = "createKey (toNodeId ed) (Some (nodeId cur))"
  let ?c = "cost cur + stepCost g w (previousNodeId cur) (nodeId cur) ed"
  from Cons.prems have nn: "0 \<le> stepCost g w (previousNodeId cur) (nodeId cur) ed"
    and rest: "\<forall>ed \<in> set es. 0 \<le> stepCost g w (previousNodeId cur) (nodeId cur) ed" by simp_all
  from Cons.IH [OF rest, of ?st1] obtain new where
    o: "open_list ?st' = open_list ?st1 @ new"
    and n: "\<forall>ns \<in> set new. cost cur \<le> cost ns \<and> previousNodeId ns = Some (nodeId cur)
             \<and> nodeId ns \<in> toNodeId ` set es"
    and b: "best_le (bestCostByState ?st1) (bestCostByState ?st')"
    and d: "new \<noteq> [] \<longrightarrow> (\<exists>ed \<in> set es.
             \<not> dead g w (bestCostByState ?st1) (cost cur) (previousNodeId cur, nodeId cur, ed)
             \<and> dead g w (bestCostByState ?st') (cost cur) (previousNodeId cur, nodeId cur, ed))"
    by blast
  show ?case
  proof (cases rule: relaxEdge_cases [of g w cur st ed])
    case (skip b0)
    show ?thesis
      using o n b d skip(1) by (intro exI [of _ new]) auto
  next
    case (push ns)
    have o': "open_list ?st' = open_list st @ (ns # new)"
      using o push(1) by simp
    have bl: "best_le (bestCostByState st) (bestCostByState ?st1)"
      using push(1) push(3) by (simp add: best_le_upd less_imp_le)
    have nd: "\<not> dead g w (bestCostByState st) (cost cur) (previousNodeId cur, nodeId cur, ed)"
      using push(3) by (auto simp: dead_def split: option.splits)
    have "dead g w (bestCostByState ?st1) (cost cur) (previousNodeId cur, nodeId cur, ed)"
      using push(1) by (simp add: dead_def)
    then have dd: "dead g w (bestCostByState ?st') (cost cur) (previousNodeId cur, nodeId cur, ed)"
      using b by (rule dead_mono) simp
    have nsp: "cost cur \<le> cost ns \<and> previousNodeId ns = Some (nodeId cur) \<and> nodeId ns = toNodeId ed"
      using push(2) nn by simp
    show ?thesis
      apply (intro exI [of _ "ns # new"])
      using o' n nsp best_le_trans [OF bl b] nd dd by auto
  qed
qed

lemma sort_key_Nil_iff: "sort_key f xs = [] \<longleftrightarrow> xs = []"
proof
  assume "sort_key f xs = []"
  then have "set (sort_key f xs) = {}" by simp
  then show "xs = []" by (simp del: sort_key_simps)
qed simp

lemma searchLoop_exhausts:
  assumes nonneg: "\<And>p n ed. ed \<in> set (outgoing g n) \<Longrightarrow> 0 \<le> stepCost g w p n ed"
    and unreach: "\<not> reachable g s e"
  shows "frontierOk g s st \<Longrightarrow> searchLoop g w s e st = Some (Inl (NoPathFound s e))"
proof -
  have "wf (inv_image (less_than <*lex*> less_than)
          (\<lambda>st. (card (live g w st), length (open_list st))))"
    by (intro wf_inv_image wf_lex_prod wf_less_than)
  then have "frontierOk g s st \<longrightarrow> searchLoop g w s e st = Some (Inl (NoPathFound s e))"
  proof (induct st rule: wf_induct_rule)
  case (less st)
  show ?case
  proof
  assume prems: "frontierOk g s st"
  show "searchLoop g w s e st = Some (Inl (NoPathFound s e))"
  proof (cases "sort_key cost (open_list st)")
    case Nil
    then show ?thesis by (subst searchLoop.simps) simp
  next
    case (Cons cur rest)
    note h = sort_key_head [OF Cons]
    let ?es = "outgoing g (nodeId cur)"
    let ?st1 = "st\<lparr>open_list := rest\<rparr>"
    let ?st' = "foldl (relaxEdge g w cur) ?st1 ?es"
    from prems h(1) have curok: "reachable g s (nodeId cur)"
      "previousNodeId cur \<in> insert None (Some ` fst ` set (traversableFrom g))"
      by (auto simp: frontierOk_def)
    with unreach have ne: "nodeId cur \<noteq> e" by auto
    have unfold: "searchLoop g w s e st = searchLoop g w s e ?st'"
      by (subst searchLoop.simps) (simp add: Cons ne)
    have "\<forall>ed \<in> set ?es. 0 \<le> stepCost g w (previousNodeId cur) (nodeId cur) ed"
      using nonneg by blast
    from fold_relax [OF this, of ?st1] obtain new where
      o: "open_list ?st' = rest @ new"
      and n: "\<forall>ns \<in> set new. cost cur \<le> cost ns \<and> previousNodeId ns = Some (nodeId cur)
             \<and> nodeId ns \<in> toNodeId ` set ?es"
      and b: "best_le (bestCostByState st) (bestCostByState ?st')"
      and d: "new \<noteq> [] \<longrightarrow> (\<exists>ed \<in> set ?es.
             \<not> dead g w (bestCostByState st) (cost cur) (previousNodeId cur, nodeId cur, ed)
             \<and> dead g w (bestCostByState ?st') (cost cur) (previousNodeId cur, nodeId cur, ed))"
      by auto
    have ok': "frontierOk g s ?st'"
      unfolding frontierOk_def
    proof
      fix x assume "x \<in> set (open_list ?st')"
      then consider "x \<in> set rest" | "x \<in> set new" using o by auto
      then show "reachable g s (nodeId x)
         \<and> previousNodeId x \<in> insert None (Some ` fst ` set (traversableFrom g))"
      proof cases
        case 1
        then show ?thesis using prems h(2) by (auto simp: frontierOk_def)
      next
        case 2
        with n obtain ed where ed: "ed \<in> set ?es" "nodeId x = toNodeId ed"
          "previousNodeId x = Some (nodeId cur)" by auto
        from ed(1) have "nodeId cur \<in> fst ` set (traversableFrom g)" by (rule outgoing_key)
        moreover have "reachable g s (toNodeId ed)" using curok(1) ed(1) by (rule reachable.step)
        ultimately show ?thesis using ed by simp
      qed
    qed
    show ?thesis
    proof (cases "open_list ?st' = []")
      case True
      then show ?thesis
        by (simp add: unfold) (subst searchLoop.simps, simp)
    next
      case False
      have lowst: "lowest st = cost cur" by (simp add: lowest_def Cons)
      from False have "sort_key cost (open_list ?st') \<noteq> []"
        by (simp add: sort_key_Nil_iff)
      then obtain y ys where srt: "sort_key cost (open_list ?st') = y # ys"
        by (cases "sort_key cost (open_list ?st')") auto
      have "y \<in> set rest \<union> set new" using sort_key_head(1) [OF srt] o by simp
      then have "cost cur \<le> cost y" using h(3) n by auto
      moreover have "lowest ?st' = cost y" by (simp add: lowest_def srt)
      ultimately have low: "lowest st \<le> lowest ?st'" by (simp add: lowst)
      have sub: "live g w ?st' \<subseteq> live g w st"
        using dead_mono [OF _ b low] by (auto simp: live_def)
      have fin: "finite (live g w st)" by (simp add: live_def finite_triples)
      have "(?st', st) \<in> inv_image (less_than <*lex*> less_than)
              (\<lambda>st. (card (live g w st), length (open_list st)))"
      proof (cases "new = []")
        case True
        have "card (live g w ?st') \<le> card (live g w st)" using sub fin by (rule card_mono [rotated])
        moreover have "length (open_list ?st') < length (open_list st)"
          using o True h(4) by simp
        ultimately show ?thesis by auto
      next
        case nonempty: False
        with d obtain ed where ed: "ed \<in> set ?es"
          "\<not> dead g w (bestCostByState st) (cost cur) (previousNodeId cur, nodeId cur, ed)"
          "dead g w (bestCostByState ?st') (cost cur) (previousNodeId cur, nodeId cur, ed)"
          by blast
        let ?t = "(previousNodeId cur, nodeId cur, ed)"
        have "?t \<in> triples g"
          using curok(2) ed(1) outgoing_key [OF ed(1)] by (simp add: triples_def)
        then have "?t \<in> live g w st" using ed(2) by (simp add: live_def lowst)
        moreover have "dead g w (bestCostByState ?st') (lowest ?st') ?t"
          using ed(3) best_le_refl low [unfolded lowst] by (rule dead_mono)
        then have "?t \<notin> live g w ?st'" by (simp add: live_def)
        ultimately have "live g w ?st' \<subset> live g w st" using sub by auto
        then have "card (live g w ?st') < card (live g w st)" using fin by (simp add: psubset_card_mono)
        then show ?thesis by auto
      qed
      from less [OF this] ok' show ?thesis by (simp add: unfold)
    qed
  qed
  qed
  qed
  then show "frontierOk g s st \<Longrightarrow> searchLoop g w s e st = Some (Inl (NoPathFound s e))"
    by simp
qed

lemma scoreEdgeTraversal_nonneg:
  assumes "nonNegativeWeights w" "0 \<le> lengthMeters ed" "1 \<le> trafficStress ed"
  shows "0 \<le> scoreEdgeTraversal ed w"
proof -
  define a where "a = (real (trafficStress ed) - 1) * (35 / 100)
            + (if hasSidewalk ed then 0 else 7 / 10) + (if litAtNight ed then 0 else 2 / 10)"
  have "0 \<le> real (trafficStress ed) - 1" using assms(3) by simp
  then have "0 \<le> a" by (simp add: a_def)
  then have "0 \<le> a * 100 * safety w"
    using assms(1) by (simp add: nonNegativeWeights_def)
  moreover have "0 \<le> lengthMeters ed * distance w"
    using assms by (simp add: nonNegativeWeights_def)
  moreover have "0 \<le> max 0 (elevationGainMeters ed) * elevation w"
    using assms(1) by (simp add: nonNegativeWeights_def)
  moreover have "scoreEdgeTraversal ed w =
      lengthMeters ed * distance w + max 0 (elevationGainMeters ed) * elevation w
      + a * 100 * safety w"
    by (simp add: scoreEdgeTraversal_def Let_def a_def)
  ultimately show ?thesis by linarith
qed

lemma outgoing_subset: "set (outgoing g n) \<subseteq> set (concat (Map_values (traversableFrom g)))"
proof (cases "map_of (traversableFrom g) n")
  case None
  then show ?thesis by (simp add: outgoing_def getOrEmpty_def)
next
  case (Some es)
  then have "(n, es) \<in> set (traversableFrom g)" by (rule map_of_SomeD)
  then have "es \<in> set (Map_values (traversableFrom g))" by (force simp: Map_values_def)
  then show ?thesis using Some by (auto simp: outgoing_def getOrEmpty_def)
qed

lemma stepCost_nonneg:
  assumes "nonNegativeWeights w" "edgesInRange g" "ed \<in> set (outgoing g n)"
  shows "0 \<le> stepCost g w p n ed"
proof -
  from assms(3) outgoing_subset [of g n]
  have "ed \<in> set (concat (Map_values (traversableFrom g)))" by blast
  with assms(2) have "0 \<le> lengthMeters ed" "1 \<le> trafficStress ed"
    unfolding edgesInRange_def by blast+
  with assms(1) have "0 \<le> scoreEdgeTraversal ed w" by (simp add: scoreEdgeTraversal_nonneg)
  moreover have "0 \<le> turnCost g w p n (toNodeId ed)"
    using assms(1) by (simp add: turnCost_nonneg nonNegativeWeights_def)
  ultimately show ?thesis by (simp add: stepCost_def)
qed

text \<open>
  Whatever the graph and the weights, a failure of \<^verbatim>\<open>findPath\<close> is the "no path" error of
  the emptied frontier, and it names the two endpoints of the request.
\<close>

lemma findPath_failure_is_exhaustion:
  assumes "findPath request = Some (Inl err)"
  shows "err = NoPathFound (startNodeId request) (endNodeId request)"
proof -
  have "\<forall>err. y = Inl err \<longrightarrow> err = NoPathFound s e"
    if run: "searchLoop g w s e st = Some y" for g w s e st y
  proof (rule searchLoop.raw_induct [where P = "\<lambda>g w s e st y. \<forall>err. y = Inl err \<longrightarrow> err = NoPathFound s e",
        OF _ run], goal_cases)
    case (1 loop g w s e st y)
    show ?case
    proof (cases "sort_key cost (open_list st)")
      case Nil
      with 1(2) show ?thesis by auto
    next
      case (Cons cur rest)
      show ?thesis
      proof (cases "nodeId cur = e")
        case True
        with 1(2) Cons show ?thesis by auto
      next
        case False
        with 1(2) Cons have "loop g w s e (foldl (relaxEdge g w cur) (st\<lparr>open_list := rest\<rparr>)
                  (outgoing g (nodeId cur))) = Some y" by simp
        then show ?thesis by (rule 1(1))
      qed
    qed
  qed
  with assms show ?thesis by (simp add: findPath_def Let_def)
qed

text \<open>
  C2. For every pair of node ids with no directed path from the first to the second in the
  adjacency index, \<^verbatim>\<open>findPath\<close> returns, and what it returns is the "no path" failure
  naming both endpoints: no crash, no partial result. This is for step costs that are not
  negative, the setting of the search: edge lengths that are not negative, a traffic stress
  of at least 1 and weights that are not negative (the default weights are such). And
  whatever the graph and the weights, a failure of \<^verbatim>\<open>findPath\<close> is that failure of the
  emptied frontier: the code has no other.
\<close>

theorem findPath_no_path:
  "(nonNegativeWeights (case wopt of None \<Rightarrow> DEFAULT_ROUTE_OBJECTIVE_WEIGHTS | Some w \<Rightarrow> w)
      \<and> edgesInRange g \<and> \<not> reachable g s e
    \<longrightarrow> findPath \<lparr>graph = g, startNodeId = s, endNodeId = e, weights = wopt\<rparr> =
           Some (Inl (NoPathFound s e)))
   \<and> (\<forall>err. findPath \<lparr>graph = g, startNodeId = s, endNodeId = e, weights = wopt\<rparr> =
              Some (Inl err)
        \<longrightarrow> err = NoPathFound s e)"
proof (intro conjI impI allI)
  fix err
  assume "findPath \<lparr>graph = g, startNodeId = s, endNodeId = e, weights = wopt\<rparr> = Some (Inl err)"
  from findPath_failure_is_exhaustion [OF this] show "err = NoPathFound s e" by simp
next
  let ?w = "case wopt of None \<Rightarrow> DEFAULT_ROUTE_OBJECTIVE_WEIGHTS | Some w \<Rightarrow> w"
  let ?st = "\<lparr>open_list = [initialState s], bestCostByState = [key (initialState s) \<mapsto> 0],
              stateMap = [key (initialState s) \<mapsto> initialState s]\<rparr>"
  assume a: "nonNegativeWeights ?w \<and> edgesInRange g \<and> \<not> reachable g s e"
  then have w: "nonNegativeWeights ?w" and g: "edgesInRange g" and unreach: "\<not> reachable g s e"
    by simp_all
  have "frontierOk g s ?st"
    by (simp add: frontierOk_def initialState_def reachable.here)
  moreover have "\<And>p n ed. ed \<in> set (outgoing g n) \<Longrightarrow> 0 \<le> stepCost g ?w p n ed"
    using w g by (rule stepCost_nonneg)
  ultimately have "searchLoop g ?w s e ?st = Some (Inl (NoPathFound s e))"
    using unreach by (intro searchLoop_exhausts)
  then show "findPath \<lparr>graph = g, startNodeId = s, endNodeId = e, weights = wopt\<rparr> =
           Some (Inl (NoPathFound s e))" by (simp add: findPath_def Let_def)
qed

lemma deadEnd_outgoing_B: "outgoing deadEnd ''B'' = []"
  by (simp add: deadEnd_def createRoadGraph_def addRoadEdge_def pushTraversable_def
      outgoing_def getOrEmpty_def forwardEdge_def)

lemma deadEnd_unreachable: "\<not> reachable deadEnd ''B'' ''A''"
proof -
  have "reachable deadEnd ''B'' x \<Longrightarrow> x = ''B''" for x
    by (induction rule: reachable.induct) (simp_all add: deadEnd_outgoing_B)
  then show ?thesis by auto
qed

lemma deadEnd_edgesInRange: "edgesInRange deadEnd"
  by (simp add: edgesInRange_def deadEnd_def createRoadGraph_def addRoadEdge_def
      pushTraversable_def getOrEmpty_def forwardEdge_def Map_values_def)

theorem findPath_no_path_witness:
  "nonNegativeWeights DEFAULT_ROUTE_OBJECTIVE_WEIGHTS \<and> edgesInRange deadEnd
   \<and> \<not> reachable deadEnd ''B'' ''A''
   \<and> findPath \<lparr>graph = deadEnd, startNodeId = ''B'', endNodeId = ''A'', weights = None\<rparr> =
       Some (Inl (NoPathFound ''B'' ''A''))"
proof -
  have w: "nonNegativeWeights DEFAULT_ROUTE_OBJECTIVE_WEIGHTS"
    by (simp add: nonNegativeWeights_def DEFAULT_ROUTE_OBJECTIVE_WEIGHTS_def)
  from findPath_no_path [of None deadEnd "''B''" "''A''", THEN conjunct1]
  show ?thesis
    by (simp add: w deadEnd_unreachable deadEnd_edgesInRange)
qed

end
